theory Spec2Isabelle
  imports Complex_Main
begin

section \<open>Python values and library functions used by the updater\<close>

text \<open>
  The updater (class \<open>Updater\<close> of \<open>Rinstaller.py\<close>) works on parsed JSON documents,
  on path strings and on byte strings. A Python \<open>str\<close> and a Python \<open>bytes\<close> are both
  modelled as \<open>string\<close>; a function that raises returns \<open>Raised\<close>.
\<close>

datatype 'a outcome = Raised | Returned 'a

text \<open>
  A Python float as far as the updater uses it: it is only compared (\<open>>\<close> and \<open>==\<close>).
  \<open>json.loads\<close> also yields \<open>NaN\<close> and the two infinities.
\<close>

datatype pyfloat = NaN | NegInf | Finite real | PosInf

fun float_lt :: "pyfloat \<Rightarrow> pyfloat \<Rightarrow> bool" where
  "float_lt NaN _ = False"
| "float_lt _ NaN = False"
| "float_lt NegInf NegInf = False"
| "float_lt NegInf _ = True"
| "float_lt (Finite a) (Finite b) = (a < b)"
| "float_lt (Finite a) PosInf = True"
| "float_lt (Finite a) NegInf = False"
| "float_lt PosInf _ = False"

definition float_gt :: "pyfloat \<Rightarrow> pyfloat \<Rightarrow> bool" where
  "float_gt a b = float_lt b a"

definition float_eq :: "pyfloat \<Rightarrow> pyfloat \<Rightarrow> bool" where
  "float_eq a b = (a \<noteq> NaN \<and> a = b)"

datatype json =
    JNull
  | JBool bool
  | JInt int
  | JFloat pyfloat
  | JStr string
  | JList "json list"
  | JDict "(string \<times> json) list"

text \<open>\<open>d[k]\<close> and \<open>k in d.keys()\<close> on a parsed JSON object, kept in document order.\<close>

definition dict_get :: "(string \<times> 'v) list \<Rightarrow> string \<Rightarrow> 'v option" where
  "dict_get d k = map_of d k"

definition dict_keys :: "(string \<times> 'v) list \<Rightarrow> string list" where
  "dict_keys d = map fst d"

text \<open>
  \<open>d[k] = v\<close> on a Python dict: an existing key keeps its place, a new key goes to
  the end (dicts iterate in insertion order).
\<close>

fun dict_set :: "(string \<times> 'v) list \<Rightarrow> string \<Rightarrow> 'v \<Rightarrow> (string \<times> 'v) list" where
  "dict_set [] k v = [(k, v)]"
| "dict_set ((k', v') # d) k v = (if k' = k then (k, v) # d else (k', v') # dict_set d k v)"

text \<open>\<open>isinstance(x, int)\<close>: Python's \<open>bool\<close> is a subclass of \<open>int\<close>.\<close>

fun py_int :: "json \<Rightarrow> int option" where
  "py_int (JInt i) = Some i"
| "py_int (JBool b) = Some (if b then 1 else 0)"
| "py_int _ = None"

text \<open>Whether \<open>"%d" % x\<close> formats \<open>x\<close> (it raises on anything but a finite number).\<close>

fun fmt_d_ok :: "json \<Rightarrow> bool" where
  "fmt_d_ok (JInt i) = True"
| "fmt_d_ok (JBool b) = True"
| "fmt_d_ok (JFloat (Finite r)) = True"
| "fmt_d_ok _ = False"

subsection \<open>Paths and lines\<close>

definition slash :: char where
  "slash = CHR ''/''"

definition newline :: char where
  "newline = CHR 0x0A"

text \<open>\<open>os.path.join\<close> of \<open>posixpath\<close>, for two and for three components.\<close>

definition py_join :: "string \<Rightarrow> string \<Rightarrow> string" where
  "py_join a b =
     (if b \<noteq> [] \<and> hd b = slash then b
      else if a = [] \<or> last a = slash then a @ b
      else a @ [slash] @ b)"

definition py_join3 :: "string \<Rightarrow> string \<Rightarrow> string \<Rightarrow> string" where
  "py_join3 a b c = py_join (py_join a b) c"

text \<open>\<open>os.path.dirname\<close>: the part up to the last slash, without trailing slashes
  unless it consists of slashes only.\<close>

definition py_dirname :: "string \<Rightarrow> string" where
  "py_dirname p =
     (let head = rev (dropWhile (\<lambda>c. c \<noteq> slash) (rev p))
      in if head \<noteq> [] \<and> \<not> list_all (\<lambda>c. c = slash) head
         then rev (dropWhile (\<lambda>c. c = slash) (rev head))
         else head)"

text \<open>\<open>s.split("/")\<close>: never empty, \<open>"".split("/") == [""]\<close>.\<close>

fun split_slash :: "string \<Rightarrow> string list" where
  "split_slash [] = [[]]"
| "split_slash (c # cs) =
     (if c = slash then [] # split_slash cs
      else (case split_slash cs of
              [] \<Rightarrow> [[c]]
            | w # ws \<Rightarrow> (c # w) # ws))"

text \<open>\<open>str.isspace\<close> on an ASCII character, and \<open>str.strip()\<close>.\<close>

definition py_isspace :: "char \<Rightarrow> bool" where
  "py_isspace c = (c \<in> set [CHR 0x20, CHR 0x09, CHR 0x0A, CHR 0x0B, CHR 0x0C, CHR 0x0D,
                              CHR 0x1C, CHR 0x1D, CHR 0x1E, CHR 0x1F])"

definition py_strip :: "string \<Rightarrow> string" where
  "py_strip s = rev (dropWhile py_isspace (rev (dropWhile py_isspace s)))"

text \<open>\<open>bytes.decode("ascii")\<close> raises on a byte above 127.\<close>

definition decode_ascii :: "string \<Rightarrow> string option" where
  "decode_ascii bs = (if list_all (\<lambda>c. (of_char c :: nat) < 128) bs then Some bs else None)"

text \<open>\<open>url.lower()\<close>, on the ASCII letters.\<close>

definition py_lower_char :: "char \<Rightarrow> char" where
  "py_lower_char c =
     (let n = (of_char c :: nat) in if 65 \<le> n \<and> n \<le> 90 then char_of (n + 32) else c)"

definition py_startswith :: "string \<Rightarrow> string \<Rightarrow> bool" where
  "py_startswith s p = (take (length p) s = p)"

subsection \<open>Temporary files\<close>

text \<open>
  A \<open>tempfile.TemporaryFile(mode='w+b')\<close>: its bytes, the file position, and whether it
  has been closed. Writing at a position overwrites the bytes there and keeps whatever
  lies behind the written range: nothing truncates the file. The updater only seeks to
  position 0, so the position never lies beyond the end.
\<close>

record tmpfile =
  data :: string
  pos :: nat
  closed :: bool

definition tf_new :: tmpfile where
  "tf_new = \<lparr>data = [], pos = 0, closed = False\<rparr>"

definition tf_write :: "tmpfile \<Rightarrow> string \<Rightarrow> tmpfile" where
  "tf_write fh bs =
     fh\<lparr>data := take (pos fh) (data fh) @ bs @ drop (pos fh + length bs) (data fh),
        pos := pos fh + length bs\<rparr>"

definition tf_seek0 :: "tmpfile \<Rightarrow> tmpfile" where
  "tf_seek0 fh = fh\<lparr>pos := 0\<rparr>"

text \<open>\<open>readline()\<close>: up to and including the first newline after the position.\<close>

definition tf_readline :: "tmpfile \<Rightarrow> string" where
  "tf_readline fh =
     (let rest = drop (pos fh) (data fh);
          line = takeWhile (\<lambda>c. c \<noteq> newline) rest
      in if length line < length rest then line @ [newline] else line)"

definition tf_close :: "tmpfile \<Rightarrow> tmpfile" where
  "tf_close fh = fh\<lparr>closed := True\<rparr>"

section \<open>The environment of the updater\<close>

text \<open>
  The changes the updater makes to the file system, one constructor for each call it
  issues: \<open>os.remove\<close>, \<open>os.rmdir\<close>, \<open>os.mkdir\<close>, writing a file
  (\<open>open(p, 'wb')\<close>, \<open>shutil.copyfileobj\<close>, \<open>close\<close>) and \<open>os.chmod\<close>.
\<close>

datatype fs_op =
    Remove string
  | Rmdir string
  | Mkdir string
  | WriteFile string string
  | Chmod string nat

text \<open>
  Everything outside the program is a parameter: the HTTP transport (\<open>requests.get\<close>,
  \<open>None\<close> when it raises or the status is not 2xx), \<open>json.loads\<close>, \<open>hashlib.sha256\<close>
  as a function from the bytes to the hex digest, \<open>str()\<close> of a JSON value, whether a
  temporary file can be created, and the file system over a state \<open>'w\<close>: the queries,
  and \<open>os_mutate\<close>, which performs a change and says whether it succeeded.
\<close>

record 'w env =
  http_text :: "string \<Rightarrow> string option"
  http_stream :: "string \<Rightarrow> string option"
  json_loads :: "string \<Rightarrow> json option"
  sha256 :: "string \<Rightarrow> string"
  py_str :: "json \<Rightarrow> string"
  tempfile_ok :: bool
  os_exists :: "'w \<Rightarrow> string \<Rightarrow> bool"
  os_isdir :: "'w \<Rightarrow> string \<Rightarrow> bool"
  os_access_w :: "'w \<Rightarrow> string \<Rightarrow> bool"
  os_read :: "'w \<Rightarrow> string \<Rightarrow> string option"
  os_listdir :: "'w \<Rightarrow> string \<Rightarrow> string list option"
  os_mutate :: "fs_op \<Rightarrow> 'w \<Rightarrow> bool \<times> 'w"

text \<open>
  The state outside the updater object: the file system, the list of changes issued to
  it so far, and the list of URLs from which file content was requested
  (\<open>stream=True\<close>), both in the order of the calls.
\<close>

record 'w sys =
  world :: 'w
  fs_log :: "fs_op list"
  dl_log :: "string list"

definition issue :: "'w env \<Rightarrow> fs_op \<Rightarrow> 'w sys \<Rightarrow> bool \<times> 'w sys" where
  "issue e op s =
     (let (ok, w') = os_mutate e op (world s)
      in (ok, s\<lparr>world := w', fs_log := fs_log s @ [op]\<rparr>))"

section \<open>The updater object\<close>

datatype FileUpdateType = NEW | DELETE | MODIFY

type_synonym plan = "(string \<times> FileUpdateType) list"

text \<open>
  The fields of \<open>Updater\<close> (\<open>instanceId\<close> is the field \<open>instance\<close>). Python's \<open>None\<close> in \<open>repoInfo\<close> and \<open>instanceInfo\<close> is
  \<open>JNull\<close>, which is also what \<open>json.loads("null")\<close> stores there. \<open>newestFiles\<close> and
  \<open>newestSymlinks\<close> are only ever assigned a dict and a list. The lock is left out: every
  call is modelled on its own.
\<close>

record updater =
  instanceId :: string
  instanceLocation :: string
  url :: string
  newestVersion :: pyfloat
  newestRev :: int
  newestFiles :: "(string \<times> json) list option"
  newestSymlinks :: "json list option"
  lastChecked :: int
  repoInfo :: json
  repoInstanceLocation :: "string option"
  instanceInfo :: json
  repo_version :: json
  max_redirections :: nat
  localInstanceInfo :: json

section \<open>The manifest client\<close>

text \<open>\<open>str(x)\<close>: a string is itself, anything else is left to the environment.\<close>

definition to_str :: "'w env \<Rightarrow> json \<Rightarrow> string" where
  "to_str e j = (case j of JStr s \<Rightarrow> s | _ \<Rightarrow> py_str e j)"

text \<open>
  The last statement of \<open>_getRepositoryInformation\<close>, which stands outside the
  \<open>try\<close>: \<open>str(self.repoInfo["instances"][self.instance]["location"])\<close>. A missing
  key or an entry that is not an object raises.
\<close>

definition repo_location :: "'w env \<Rightarrow> (string \<times> json) list \<Rightarrow> updater \<Rightarrow> bool outcome \<times> updater" where
  "repo_location e insts u =
     (case dict_get insts (instanceId u) of
        Some (JDict ent) \<Rightarrow>
          (case dict_get ent ''location'' of
             None \<Rightarrow> (Raised, u)
           | Some loc \<Rightarrow> (Returned True, u\<lparr>repoInstanceLocation := Some (to_str e loc)\<rparr>))
      | _ \<Rightarrow> (Raised, u))"

text \<open>
  \<open>_getRepositoryInformation\<close>. The parsed document is stored in \<open>repoInfo\<close> before it
  is checked. Every exception inside the second \<open>try\<close> (a document that is not an
  object, \<open>instances\<close> without \<open>keys()\<close>, a repository version that \<open>%d\<close> cannot
  format) ends in \<open>return False\<close>.
\<close>

definition priv_getRepositoryInformation :: "'w env \<Rightarrow> updater \<Rightarrow> bool outcome \<times> updater" where
  "priv_getRepositoryInformation e u =
     (case http_text e (py_join (url u) ''repoInfo.json'') of
        None \<Rightarrow> (Returned False, u)
      | Some repoInfoString \<Rightarrow>
          (case json_loads e repoInfoString of
             None \<Rightarrow> (Returned False, u)
           | Some j \<Rightarrow>
               (let u1 = u\<lparr>repoInfo := j\<rparr> in
                case j of
                  JDict d \<Rightarrow>
                    (case dict_get d ''instances'' of
                       None \<Rightarrow> (Returned False, u1)
                     | Some (JDict insts) \<Rightarrow>
                         if instanceId u1 \<notin> set (dict_keys insts) then (Returned False, u1)
                         else
                           (let u2 = (case dict_get d ''version'' of
                                        None \<Rightarrow> u1
                                      | Some v \<Rightarrow> u1\<lparr>repo_version := v\<rparr>)
                            in if \<not> fmt_d_ok (repo_version u2) then (Returned False, u2)
                               else repo_location e insts u2)
                     | Some _ \<Rightarrow> (Returned False, u1))
                | _ \<Rightarrow> (Returned False, u1))))"

text \<open>
  The checks of \<open>_getInstanceInformation\<close> on the parsed instance document: \<open>version\<close>
  is a float, \<open>rev\<close> is an int, \<open>dependencies\<close> is a dict. A missing key or a document
  that is not an object raises inside the \<open>try\<close>, which is \<open>False\<close> here. The source's
  check of \<open>symlinks\<close> is nested under the \<open>raise\<close> for \<open>dependencies\<close> and is never
  executed, so it has no branch here.
\<close>

definition instanceInfo_checks :: "json \<Rightarrow> bool" where
  "instanceInfo_checks j =
     (case j of
        JDict d \<Rightarrow>
          (case dict_get d ''version'' of
             Some (JFloat f) \<Rightarrow>
               (case dict_get d ''rev'' of
                  None \<Rightarrow> False
                | Some r \<Rightarrow>
                    if py_int r = None then False
                    else (case dict_get d ''dependencies'' of
                            Some (JDict deps) \<Rightarrow> True
                          | _ \<Rightarrow> False))
           | _ \<Rightarrow> False)
      | _ \<Rightarrow> False)"

text \<open>
  \<open>_getInstanceInformation\<close>: fetch the repository document first if it is not known,
  then fetch the instance document, store it in \<open>instanceInfo\<close> and check it. The
  assignment \<open>self.instanceInfo = json.loads(...)\<close> comes before the checks.
\<close>

definition priv_getInstanceInformation :: "'w env \<Rightarrow> updater \<Rightarrow> bool \<times> updater" where
  "priv_getInstanceInformation e u =
     (let (ok, u0) =
            (if repoInfo u = JNull \<or> repoInstanceLocation u = None
             then (case priv_getRepositoryInformation e u of
                     (Returned True, u') \<Rightarrow> (True, u')
                   | (_, u') \<Rightarrow> (False, u'))
             else (True, u))
      in if \<not> ok then (False, u0)
         else
           (case repoInstanceLocation u0 of
              None \<Rightarrow> (False, u0)
            | Some loc \<Rightarrow>
                (case http_text e (py_join3 (url u0) loc ''instanceInfo.json'') of
                   None \<Rightarrow> (False, u0)
                 | Some instanceInfoString \<Rightarrow>
                     (case json_loads e instanceInfoString of
                        None \<Rightarrow> (False, u0)
                      | Some j \<Rightarrow> (instanceInfo_checks j, u0\<lparr>instanceInfo := j\<rparr>)))))"

text \<open>
  The parsing step of \<open>_getNewestVersionInformation\<close>: version, revision, files and
  symlinks of the stored instance document, \<open>None\<close> where the \<open>try\<close> block raises. It
  runs right after \<open>_getInstanceInformation\<close> has returned \<open>True\<close>, so \<open>version\<close> is a
  float there and \<open>rev\<close> an int, and \<open>float()\<close> and \<open>int()\<close> return them as they are.
\<close>

definition parse_version :: "json \<Rightarrow> (pyfloat \<times> int \<times> (string \<times> json) list \<times> json list) option" where
  "parse_version j =
     (case j of
        JDict d \<Rightarrow>
          (case dict_get d ''version'' of
             Some (JFloat version) \<Rightarrow>
               (case dict_get d ''rev'' of
                  None \<Rightarrow> None
                | Some r \<Rightarrow>
                    (case py_int r of
                       None \<Rightarrow> None
                     | Some revision \<Rightarrow>
                         (case dict_get d ''files'' of
                            None \<Rightarrow> None
                          | Some filesJ \<Rightarrow>
                              (let symlinksJ =
                                     (if ''symlinks'' \<in> set (dict_keys d)
                                      then the (dict_get d ''symlinks'') else JList [])
                               in case filesJ of
                                    JDict files \<Rightarrow>
                                      (case symlinksJ of
                                         JList symlinks \<Rightarrow> Some (version, revision, files, symlinks)
                                       | _ \<Rightarrow> None)
                                  | _ \<Rightarrow> None))))
           | _ \<Rightarrow> None)
      | _ \<Rightarrow> None)"

text \<open>The condition under which the remembered newest version is overwritten.\<close>

definition newer_or_unset :: "pyfloat \<Rightarrow> int \<Rightarrow> updater \<Rightarrow> bool" where
  "newer_or_unset version revision u =
     (float_gt version (newestVersion u)
      \<or> (revision > newestRev u \<and> float_eq version (newestVersion u))
      \<or> newestFiles u = None
      \<or> newestSymlinks u = None)"

text \<open>\<open>_getNewestVersionInformation\<close>; \<open>t\<close> is the time read for \<open>lastChecked\<close>.\<close>

definition priv_getNewestVersionInformation :: "'w env \<Rightarrow> int \<Rightarrow> updater \<Rightarrow> bool \<times> updater" where
  "priv_getNewestVersionInformation e t u =
     (case priv_getInstanceInformation e u of
        (False, u1) \<Rightarrow> (False, u1)
      | (True, u1) \<Rightarrow>
          (case parse_version (instanceInfo u1) of
             None \<Rightarrow> (False, u1)
           | Some (version, revision, files, symlinks) \<Rightarrow>
               (let u2 = (if newer_or_unset version revision u1
                          then u1\<lparr>newestVersion := version, newestRev := revision,
                                  newestFiles := Some files, newestSymlinks := Some symlinks\<rparr>
                          else u1)
                in (True, u2\<lparr>lastChecked := t\<rparr>))))"

text \<open>\<open>getInstanceInformation\<close>; \<open>t\<close> is the time read at its start.\<close>

definition getInstanceInformation :: "'w env \<Rightarrow> int \<Rightarrow> updater \<Rightarrow> json outcome \<times> updater" where
  "getInstanceInformation e t u =
     (if t - lastChecked u > 60 \<or> instanceInfo u = JNull
      then (case priv_getInstanceInformation e u of
              (False, u') \<Rightarrow> (Raised, u')
            | (True, u') \<Rightarrow> (Returned (instanceInfo u'), u'))
      else (Returned (instanceInfo u), u))"

text \<open>\<open>setInstance\<close>.\<close>

definition setInstance :: "'w env \<Rightarrow> int \<Rightarrow> string \<Rightarrow> bool \<Rightarrow> updater \<Rightarrow> unit outcome \<times> updater" where
  "setInstance e t inst retrieveInfo u =
     (let u1 = u\<lparr>instanceId := inst, instanceInfo := JNull, lastChecked := 0,
                 repoInfo := JNull, repoInstanceLocation := None\<rparr>
      in if retrieveInfo
         then (case priv_getNewestVersionInformation e t u1 of
                 (False, u2) \<Rightarrow> (Raised, u2)
               | (True, u2) \<Rightarrow> (Returned (), u2))
         else (Returned (), u1))"

text \<open>The constructor \<open>Updater.__init__\<close>; \<open>None\<close> where it raises \<open>ValueError\<close>.\<close>

definition Updater_init :: "'w env \<Rightarrow> int \<Rightarrow> string \<Rightarrow> string \<Rightarrow> string \<Rightarrow> json option \<Rightarrow> bool \<Rightarrow> updater option" where
  "Updater_init e t url0 inst targetLocation localInfo retrieveInfo =
     (if \<not> py_startswith (map py_lower_char url0) ''https'' then None
      else
        (let u = \<lparr>instanceId = inst, instanceLocation = targetLocation, url = url0,
                  newestVersion = Finite 0, newestRev = 0,
                  newestFiles = None, newestSymlinks = None, lastChecked = 0,
                  repoInfo = JNull, repoInstanceLocation = None, instanceInfo = JNull,
                  repo_version = JInt 1, max_redirections = 10,
                  localInstanceInfo = (case localInfo of
                                         None \<Rightarrow> JDict [(''files'', JDict [])]
                                       | Some li \<Rightarrow> li)\<rparr>
         in if retrieveInfo
            then (case priv_getNewestVersionInformation e t u of
                    (False, u') \<Rightarrow> None
                  | (True, u') \<Rightarrow> Some u')
            else Some u))"

section \<open>The diff planner\<close>

text \<open>
  The first loop of \<open>_checkFilesToUpdate\<close>, over the keys of \<open>newestFiles\<close>: a file
  that exists is opened and hashed (\<open>None\<close> when \<open>open\<close> raises, which nothing
  catches), a file that does not exist is new.
\<close>

fun scan_remote :: "'w env \<Rightarrow> 'w \<Rightarrow> string \<Rightarrow> (string \<times> json) list \<Rightarrow> string list \<Rightarrow> plan \<Rightarrow> plan option" where
  "scan_remote e w loc files [] filesToUpdate = Some filesToUpdate"
| "scan_remote e w loc files (clientFile # rest) filesToUpdate =
     (if os_exists e w (py_join loc clientFile) then
        (case os_read e w (py_join loc clientFile) of
           None \<Rightarrow> None
         | Some content \<Rightarrow>
             if dict_get files clientFile = Some (JStr (sha256 e content))
             then scan_remote e w loc files rest filesToUpdate
             else scan_remote e w loc files rest (dict_set filesToUpdate clientFile MODIFY))
      else scan_remote e w loc files rest (dict_set filesToUpdate clientFile NEW))"

text \<open>The second loop, over the keys of \<open>localInstanceInfo["files"]\<close>.\<close>

fun scan_local :: "string list \<Rightarrow> string list \<Rightarrow> plan \<Rightarrow> plan" where
  "scan_local fileList [] filesToUpdate = filesToUpdate"
| "scan_local fileList (clientFile # rest) filesToUpdate =
     (if clientFile \<notin> set fileList
      then scan_local fileList rest (dict_set filesToUpdate clientFile DELETE)
      else scan_local fileList rest filesToUpdate)"

text \<open>
  \<open>_checkFilesToUpdate\<close>: \<open>t\<close> is the time read at its start, \<open>t'\<close> the time read by
  the refresh, \<open>w\<close> the file system. The result is \<open>Returned None\<close> when the refresh
  fails and \<open>Raised\<close> when a file cannot be opened or the local record has no object
  under \<open>files\<close>.
\<close>

definition priv_checkFilesToUpdate :: "'w env \<Rightarrow> int \<Rightarrow> int \<Rightarrow> 'w \<Rightarrow> updater \<Rightarrow> plan option outcome \<times> updater" where
  "priv_checkFilesToUpdate e t t' w u =
     (let (ok, u1) =
            (if t - lastChecked u > 60 \<or> newestFiles u = None \<or> newestSymlinks u = None
             then priv_getNewestVersionInformation e t' u
             else (True, u))
      in if \<not> ok then (Returned None, u1)
         else
           (case newestFiles u1 of
              None \<Rightarrow> (Raised, u1)
            | Some files \<Rightarrow>
                (case scan_remote e w (instanceLocation u1) files (dict_keys files) [] of
                   None \<Rightarrow> (Raised, u1)
                 | Some filesToUpdate \<Rightarrow>
                     (case localInstanceInfo u1 of
                        JDict li \<Rightarrow>
                          (case dict_get li ''files'' of
                             Some (JDict lf) \<Rightarrow>
                               (Returned (Some (scan_local (dict_keys files) (dict_keys lf) filesToUpdate)), u1)
                           | _ \<Rightarrow> (Raised, u1))
                      | _ \<Rightarrow> (Raised, u1)))))"

section \<open>The permission audit\<close>

text \<open>
  The inner loop of \<open>_checkFilePermissions\<close> for a new file with more than one path
  component: it walks over all components, the file name included, and descends
  (\<open>tempPart\<close>) only into a component that exists.
\<close>

fun check_new_parts :: "'w env \<Rightarrow> 'w \<Rightarrow> string \<Rightarrow> string \<Rightarrow> string list \<Rightarrow> bool" where
  "check_new_parts e w loc tempPart [] = True"
| "check_new_parts e w loc tempPart (filePart # rest) =
     (if os_exists e w (py_join3 loc tempPart filePart) then
        (if \<not> os_access_w e w (py_join3 loc tempPart filePart) then False
         else check_new_parts e w loc (py_join tempPart filePart) rest)
      else check_new_parts e w loc tempPart rest)"

text \<open>
  \<open>_checkFilePermissions\<close>. The update types are a datatype here, so the source's last
  branch (\<open>raise ValueError("Unknown file update type.")\<close>) has no counterpart.
\<close>

fun priv_checkFilePermissions :: "'w env \<Rightarrow> 'w \<Rightarrow> string \<Rightarrow> plan \<Rightarrow> bool" where
  "priv_checkFilePermissions e w loc [] = True"
| "priv_checkFilePermissions e w loc ((clientFile, MODIFY) # rest) =
     (if \<not> os_access_w e w (py_join loc clientFile) then False
      else priv_checkFilePermissions e w loc rest)"
| "priv_checkFilePermissions e w loc ((clientFile, NEW) # rest) =
     (let folderStructure = split_slash clientFile in
      if length folderStructure = 1 then
        (if \<not> os_access_w e w loc then False
         else priv_checkFilePermissions e w loc rest)
      else
        (if \<not> check_new_parts e w loc [] folderStructure then False
         else priv_checkFilePermissions e w loc rest))"
| "priv_checkFilePermissions e w loc ((clientFile, DELETE) # rest) =
     (if \<not> os_access_w e w (py_join loc clientFile) then False
      else priv_checkFilePermissions e w loc rest)"

section \<open>Creating and pruning directories\<close>

text \<open>The loop of \<open>_createSubDirectories\<close> over all components but the last.\<close>

fun create_dirs :: "'w env \<Rightarrow> string \<Rightarrow> string \<Rightarrow> string list \<Rightarrow> 'w sys \<Rightarrow> bool \<times> 'w sys" where
  "create_dirs e targetDirectory tempPart [] s = (True, s)"
| "create_dirs e targetDirectory tempPart (d # ds) s =
     (if \<not> os_exists e (world s) (py_join3 targetDirectory tempPart d) then
        (case issue e (Mkdir (py_join3 targetDirectory tempPart d)) s of
           (False, s') \<Rightarrow> (False, s')
         | (True, s') \<Rightarrow> create_dirs e targetDirectory (py_join tempPart d) ds s')
      else if \<not> os_isdir e (world s) (py_join3 targetDirectory tempPart d) then (False, s)
      else create_dirs e targetDirectory (py_join tempPart d) ds s)"

definition priv_createSubDirectories :: "'w env \<Rightarrow> string \<Rightarrow> string \<Rightarrow> 'w sys \<Rightarrow> bool \<times> 'w sys" where
  "priv_createSubDirectories e fileLocation targetDirectory s =
     (let folderStructure = split_slash fileLocation in
      if length folderStructure \<noteq> 1
      then create_dirs e targetDirectory [] (butlast folderStructure) s
      else (True, s))"

text \<open>
  The loop of \<open>_deleteSubDirectories\<close>, from the deepest directory upwards; the list
  holds the directory components deepest first. It stops at the first directory that
  is not empty.
\<close>

fun delete_dirs :: "'w env \<Rightarrow> string \<Rightarrow> string list \<Rightarrow> 'w sys \<Rightarrow> bool \<times> 'w sys" where
  "delete_dirs e targetDirectory [] s = (True, s)"
| "delete_dirs e targetDirectory (d # ds) s =
     (let tempDir = foldl py_join [] (rev (d # ds)) in
      case os_listdir e (world s) (py_join targetDirectory tempDir) of
        None \<Rightarrow> (False, s)
      | Some entries \<Rightarrow>
          if entries \<noteq> [] then (True, s)
          else (case issue e (Rmdir (py_join targetDirectory tempDir)) s of
                  (False, s') \<Rightarrow> (False, s')
                | (True, s') \<Rightarrow> delete_dirs e targetDirectory ds s'))"

definition priv_deleteSubDirectories :: "'w env \<Rightarrow> string \<Rightarrow> string \<Rightarrow> 'w sys \<Rightarrow> bool \<times> 'w sys" where
  "priv_deleteSubDirectories e fileLocation targetDirectory s =
     delete_dirs e targetDirectory (rev (butlast (split_slash fileLocation))) s"

section \<open>The fetcher\<close>

text \<open>
  \<open>_downloadFile\<close> returns \<open>None\<close> for four reasons, which it logs differently; the
  model keeps the reason. \<open>DlRaised\<close> is an exception that leaves \<open>_downloadFile\<close>.
\<close>

datatype dl_error = TempFileFailed | TooManyRedirections | TransportFailed | DigestMismatch

datatype dl_result = DlRaised | DlNone dl_error | DlHandle tmpfile

text \<open>\<open>_sha256File\<close>: seek to the start and hash everything in the file.\<close>

definition priv_sha256File :: "'w env \<Rightarrow> tmpfile \<Rightarrow> string" where
  "priv_sha256File e fileHandle = sha256 e (data (tf_seek0 fileHandle))"

text \<open>
  The \<open>while True\<close> loop of \<open>_downloadFile\<close>. Each round requests \<open>file_location\<close> and
  writes the response into the one temporary file, from the current position. When
  the path is a symlink marker, the first line of the temporary file, decoded and
  stripped, is joined to the directory of the path, the file is rewound, and the loop
  goes on with the counter increased. \<open>DlHandle\<close> is the \<open>break\<close>.
\<close>

function download_loop :: "'w env \<Rightarrow> updater \<Rightarrow> nat \<Rightarrow> string \<Rightarrow> tmpfile \<Rightarrow> 'w sys \<Rightarrow> dl_result \<times> 'w sys" where
  "download_loop e u redirect_ctr file_location fileHandle s =
     (if redirect_ctr > max_redirections u then (DlNone TooManyRedirections, s)
      else
        (case repoInstanceLocation u of
           None \<Rightarrow> (DlNone TransportFailed, s)
         | Some rloc \<Rightarrow>
             (case http_stream e (py_join3 (url u) rloc file_location) of
                None \<Rightarrow>
                  (DlNone TransportFailed,
                   s\<lparr>dl_log := dl_log s @ [py_join3 (url u) rloc file_location]\<rparr>)
              | Some body \<Rightarrow>
                  (case newestSymlinks u of
                     None \<Rightarrow>
                       (DlRaised, s\<lparr>dl_log := dl_log s @ [py_join3 (url u) rloc file_location]\<rparr>)
                   | Some symlinks \<Rightarrow>
                       if JStr file_location \<notin> set symlinks
                       then (DlHandle (tf_write fileHandle body),
                             s\<lparr>dl_log := dl_log s @ [py_join3 (url u) rloc file_location]\<rparr>)
                       else
                         (case decode_ascii (tf_readline (tf_seek0 (tf_write fileHandle body))) of
                            None \<Rightarrow>
                              (DlRaised,
                               s\<lparr>dl_log := dl_log s @ [py_join3 (url u) rloc file_location]\<rparr>)
                          | Some line \<Rightarrow>
                              download_loop e u (redirect_ctr + 1)
                                (py_join (py_dirname file_location) (py_strip line))
                                (tf_seek0 (tf_write fileHandle body))
                                (s\<lparr>dl_log := dl_log s @ [py_join3 (url u) rloc file_location]\<rparr>))))))"
  by pat_completeness auto
termination
  by (relation "measure (\<lambda>(e, u, redirect_ctr, file_location, fileHandle, s).
                            Suc (max_redirections u) - redirect_ctr)") auto

text \<open>\<open>_downloadFile\<close>: the loop, then the digest of the temporary file against \<open>file_hash\<close>.\<close>

definition priv_downloadFile :: "'w env \<Rightarrow> updater \<Rightarrow> string \<Rightarrow> json \<Rightarrow> 'w sys \<Rightarrow> dl_result \<times> 'w sys" where
  "priv_downloadFile e u file_location file_hash s =
     (if \<not> tempfile_ok e then (DlNone TempFileFailed, s)
      else
        (case download_loop e u 0 file_location tf_new s of
           (DlHandle fileHandle, s1) \<Rightarrow>
             (if JStr (priv_sha256File e fileHandle) \<noteq> file_hash
              then (DlNone DigestMismatch, s1)
              else (DlHandle (tf_seek0 fileHandle), s1))
         | (r, s1) \<Rightarrow> (r, s1)))"

section \<open>The update coordinator\<close>

text \<open>
  The download loop of \<open>updateInstance\<close>. The result is \<open>Returned True\<close> when the loop
  has run to its end, \<open>Returned False\<close> when a download returned \<open>None\<close> (every handle
  collected so far is closed first), and \<open>Raised\<close> when an exception left it. The
  handles are returned with the result.
\<close>

fun download_all :: "'w env \<Rightarrow> updater \<Rightarrow> plan \<Rightarrow> (string \<times> tmpfile) list \<Rightarrow> 'w sys
                     \<Rightarrow> bool outcome \<times> (string \<times> tmpfile) list \<times> 'w sys" where
  "download_all e u [] downloadedFileHandles s = (Returned True, downloadedFileHandles, s)"
| "download_all e u ((fileToUpdate, a) # rest) downloadedFileHandles s =
     (if a = NEW \<or> a = MODIFY then
        (case newestFiles u of
           None \<Rightarrow> (Raised, downloadedFileHandles, s)
         | Some files \<Rightarrow>
             (case dict_get files fileToUpdate of
                None \<Rightarrow> (Raised, downloadedFileHandles, s)
              | Some file_hash \<Rightarrow>
                  (case priv_downloadFile e u fileToUpdate file_hash s of
                     (DlRaised, s1) \<Rightarrow> (Raised, downloadedFileHandles, s1)
                   | (DlNone err, s1) \<Rightarrow>
                       (Returned False, map (\<lambda>(k, fh). (k, tf_close fh)) downloadedFileHandles, s1)
                   | (DlHandle downloadedFileHandle, s1) \<Rightarrow>
                       download_all e u rest
                         (dict_set downloadedFileHandles fileToUpdate downloadedFileHandle) s1)))
      else download_all e u rest downloadedFileHandles s)"

text \<open>The two lists of paths whose mode is changed after writing, with the mode.\<close>

definition chmod_mode :: "string \<Rightarrow> nat option" where
  "chmod_mode fileToUpdate =
     (if fileToUpdate \<in> set [''alertRclient.py'', ''alertRserver.py'', ''alertRupdate.py'',
                               ''graphExport.py'', ''manageUsers.py'']
      then Some 448
      else if fileToUpdate \<in> set [''config/config.xml.template'']
      then Some 416
      else None)"

text \<open>
  Copying one downloaded file to its destination, reading it back and comparing its
  digest, then changing its mode: the part of the second loop of \<open>updateInstance\<close> that
  a new and a modified file share. The result is \<open>None\<close> when the loop goes on to the
  next entry, and the value \<open>updateInstance\<close> returns (or \<open>Raised\<close>) otherwise.
  \<open>open(..., 'wb')\<close> comes before the handle is looked up and read, so a missing or
  closed handle leaves an empty destination behind. \<open>copyfileobj\<close> copies from the
  position of the handle to its end.
\<close>

definition copy_and_verify :: "'w env \<Rightarrow> updater \<Rightarrow> (string \<times> tmpfile) list \<Rightarrow> string \<Rightarrow> 'w sys
                                \<Rightarrow> bool outcome option \<times> 'w sys" where
  "copy_and_verify e u downloadedFileHandles fileToUpdate s =
     (let dest = py_join (instanceLocation u) fileToUpdate in
      case dict_get downloadedFileHandles fileToUpdate of
        None \<Rightarrow> (Some (Returned False), snd (issue e (WriteFile dest []) s))
      | Some fh \<Rightarrow>
          if closed fh then (Some (Returned False), snd (issue e (WriteFile dest []) s))
          else
            (case issue e (WriteFile dest (drop (pos fh) (data fh))) s of
               (False, s1) \<Rightarrow> (Some (Returned False), s1)
             | (True, s1) \<Rightarrow>
                 (case os_read e (world s1) dest of
                    None \<Rightarrow> (Some Raised, s1)
                  | Some content \<Rightarrow>
                      (case newestFiles u of
                         None \<Rightarrow> (Some Raised, s1)
                       | Some files \<Rightarrow>
                           (case dict_get files fileToUpdate of
                              None \<Rightarrow> (Some Raised, s1)
                            | Some expected \<Rightarrow>
                                if JStr (sha256 e content) \<noteq> expected
                                then (Some (Returned False), s1)
                                else
                                  (case chmod_mode fileToUpdate of
                                     None \<Rightarrow> (None, s1)
                                   | Some m \<Rightarrow>
                                       (case issue e (Chmod dest m) s1 of
                                          (False, s2) \<Rightarrow> (Some (Returned False), s2)
                                        | (True, s2) \<Rightarrow> (None, s2))))))))"

text \<open>
  The second loop of \<open>updateInstance\<close>: one pass over the plan in its order. A file to
  delete is removed and its directories are pruned; the directories of a new file are
  created; a new or modified file is copied and verified. The results of
  \<open>_deleteSubDirectories\<close> and \<open>_createSubDirectories\<close> are not looked at.
\<close>

fun apply_files :: "'w env \<Rightarrow> updater \<Rightarrow> (string \<times> tmpfile) list \<Rightarrow> plan \<Rightarrow> 'w sys
                    \<Rightarrow> bool outcome \<times> 'w sys" where
  "apply_files e u downloadedFileHandles [] s = (Returned True, s)"
| "apply_files e u downloadedFileHandles ((fileToUpdate, a) # rest) s =
     (if a = DELETE then
        (case issue e (Remove (py_join (instanceLocation u) fileToUpdate)) s of
           (False, s1) \<Rightarrow> (Returned False, s1)
         | (True, s1) \<Rightarrow>
             apply_files e u downloadedFileHandles rest
               (snd (priv_deleteSubDirectories e fileToUpdate (instanceLocation u) s1)))
      else
        (case copy_and_verify e u downloadedFileHandles fileToUpdate
                (if a = NEW
                 then snd (priv_createSubDirectories e fileToUpdate (instanceLocation u) s)
                 else s) of
           (Some r, s1) \<Rightarrow> (r, s1)
         | (None, s1) \<Rightarrow> apply_files e u downloadedFileHandles rest s1))"

text \<open>
  \<open>updateInstance\<close>: plan, audit, download everything, apply, close the handles. The
  last component of the result is the dict \<open>downloadedFileHandles\<close> as the call leaves
  it.
\<close>

definition updateInstance :: "'w env \<Rightarrow> int \<Rightarrow> int \<Rightarrow> updater \<Rightarrow> 'w sys
                               \<Rightarrow> bool outcome \<times> updater \<times> 'w sys \<times> (string \<times> tmpfile) list" where
  "updateInstance e t t' u s =
     (case priv_checkFilesToUpdate e t t' (world s) u of
        (Raised, u1) \<Rightarrow> (Raised, u1, s, [])
      | (Returned None, u1) \<Rightarrow> (Returned False, u1, s, [])
      | (Returned (Some filesToUpdate), u1) \<Rightarrow>
          if length filesToUpdate = 0 then (Returned True, u1, s, [])
          else if \<not> priv_checkFilePermissions e (world s) (instanceLocation u1) filesToUpdate
          then (Returned False, u1, s, [])
          else
            (case download_all e u1 filesToUpdate [] s of
               (Returned True, downloadedFileHandles, s1) \<Rightarrow>
                 (case apply_files e u1 downloadedFileHandles filesToUpdate s1 of
                    (Returned True, s2) \<Rightarrow>
                      (Returned True, u1, s2,
                       map (\<lambda>(k, fh). (k, tf_close fh)) downloadedFileHandles)
                  | (r, s2) \<Rightarrow> (r, u1, s2, downloadedFileHandles))
             | (r, downloadedFileHandles, s1) \<Rightarrow> (r, u1, s1, downloadedFileHandles)))"

section \<open>A small file system and server for the examples\<close>

text \<open>
  The theorems below hold for every environment. The examples run the updater in this
  one: a file system with regular files (path and content), directories and a list of
  paths without write permission, where creating, removing or renaming an entry needs
  write permission on its directory and overwriting a file needs it on the file; a
  server and a JSON parser given by tables; and a digest function \<open>h\<close>.
\<close>

record sfs =
  sfs_files :: "(string \<times> string) list"
  sfs_dirs :: "string list"
  sfs_readonly :: "string list"

definition sfs_exists :: "sfs \<Rightarrow> string \<Rightarrow> bool" where
  "sfs_exists w p = (p \<in> set (map fst (sfs_files w)) \<or> p \<in> set (sfs_dirs w))"

definition sfs_access_w :: "sfs \<Rightarrow> string \<Rightarrow> bool" where
  "sfs_access_w w p = (sfs_exists w p \<and> p \<notin> set (sfs_readonly w))"

definition sfs_children :: "sfs \<Rightarrow> string \<Rightarrow> string list" where
  "sfs_children w d = filter (\<lambda>q. py_dirname q = d) (map fst (sfs_files w) @ sfs_dirs w)"

definition sfs_listdir :: "sfs \<Rightarrow> string \<Rightarrow> string list option" where
  "sfs_listdir w d = (if d \<in> set (sfs_dirs w) then Some (sfs_children w d) else None)"

fun sfs_mutate :: "fs_op \<Rightarrow> sfs \<Rightarrow> bool \<times> sfs" where
  "sfs_mutate (Remove p) w =
     (if p \<in> set (map fst (sfs_files w)) \<and> sfs_access_w w (py_dirname p)
      then (True, w\<lparr>sfs_files := filter (\<lambda>(q, c). q \<noteq> p) (sfs_files w)\<rparr>)
      else (False, w))"
| "sfs_mutate (Rmdir p) w =
     (if p \<in> set (sfs_dirs w) \<and> sfs_children w p = [] \<and> sfs_access_w w (py_dirname p)
      then (True, w\<lparr>sfs_dirs := filter (\<lambda>q. q \<noteq> p) (sfs_dirs w)\<rparr>)
      else (False, w))"
| "sfs_mutate (Mkdir p) w =
     (if \<not> sfs_exists w p \<and> py_dirname p \<in> set (sfs_dirs w) \<and> sfs_access_w w (py_dirname p)
      then (True, w\<lparr>sfs_dirs := sfs_dirs w @ [p]\<rparr>)
      else (False, w))"
| "sfs_mutate (WriteFile p c) w =
     (if p \<in> set (sfs_dirs w) then (False, w)
      else if p \<in> set (map fst (sfs_files w)) then
        (if p \<in> set (sfs_readonly w) then (False, w)
         else (True, w\<lparr>sfs_files := dict_set (sfs_files w) p c\<rparr>))
      else if py_dirname p \<in> set (sfs_dirs w) \<and> sfs_access_w w (py_dirname p)
      then (True, w\<lparr>sfs_files := dict_set (sfs_files w) p c\<rparr>)
      else (False, w))"
| "sfs_mutate (Chmod p m) w = (sfs_exists w p, w)"

definition ex_env :: "(string \<Rightarrow> string) \<Rightarrow> (string \<times> string) list \<Rightarrow> (string \<times> json) list \<Rightarrow> sfs env" where
  "ex_env h server docs =
     \<lparr>http_text = map_of server, http_stream = map_of server, json_loads = map_of docs,
      sha256 = h, py_str = (\<lambda>j. ''?''), tempfile_ok = True,
      os_exists = sfs_exists, os_isdir = (\<lambda>w p. p \<in> set (sfs_dirs w)),
      os_access_w = sfs_access_w, os_read = (\<lambda>w p. map_of (sfs_files w) p),
      os_listdir = sfs_listdir, os_mutate = sfs_mutate\<rparr>"

text \<open>A digest function for the examples: different contents have different digests.\<close>

definition ex_hash :: "string \<Rightarrow> string" where
  "ex_hash bs = ''#'' @ bs"

text \<open>An updater for instance \<open>srv\<close>, installed under \<open>/opt/i\<close>, that has not fetched anything.\<close>

definition ex_updater :: updater where
  "ex_updater =
     \<lparr>instanceId = ''srv'', instanceLocation = ''/opt/i'', url = ''https://r'',
      newestVersion = Finite 0, newestRev = 0, newestFiles = None, newestSymlinks = None,
      lastChecked = 0, repoInfo = JNull, repoInstanceLocation = None, instanceInfo = JNull,
      repo_version = JInt 1, max_redirections = 10,
      localInstanceInfo = JDict [(''files'', JDict [])]\<rparr>"

definition ex_sys :: "sfs \<Rightarrow> sfs sys" where
  "ex_sys w = \<lparr>world = w, fs_log = [], dl_log = []\<rparr>"

text \<open>The planner example: \<open>a\<close> is missing on disk (and in the local record), \<open>b\<close> has
  changed, \<open>c\<close> is up to date, \<open>d\<close> is only in the local record.\<close>

definition ex_plan_updater :: updater where
  "ex_plan_updater =
     ex_updater\<lparr>newestFiles := Some [(''a'', JStr (ex_hash ''A'')), (''b'', JStr (ex_hash ''new'')),
                                     (''c'', JStr (ex_hash ''same''))],
                newestSymlinks := Some [], lastChecked := 100,
                repoInstanceLocation := Some ''srv'',
                localInstanceInfo := JDict [(''files'', JDict [(''a'', JStr ''x''), (''d'', JStr ''y'')])]\<rparr>"

definition ex_plan_world :: sfs where
  "ex_plan_world =
     \<lparr>sfs_files = [(''/opt/i/b'', ''old''), (''/opt/i/c'', ''same''), (''/opt/i/d'', ''gone'')],
      sfs_dirs = [''/opt'', ''/opt/i''], sfs_readonly = []\<rparr>"

section \<open>Auxiliary definitions for the proofs\<close>

text \<open>What the first loop of the planner decides for one path of the remote map.\<close>

definition remote_action :: "'w env \<Rightarrow> 'w \<Rightarrow> string \<Rightarrow> (string \<times> json) list \<Rightarrow> string \<Rightarrow> FileUpdateType option" where
  "remote_action e w loc files k =
     (if os_exists e w (py_join loc k) then
        (case os_read e w (py_join loc k) of
           None \<Rightarrow> None
         | Some content \<Rightarrow>
             if dict_get files k = Some (JStr (sha256 e content)) then None else Some MODIFY)
      else Some NEW)"

text \<open>
  Following a chain of symlink markers by hand: \<open>follow_chain e u k p fh\<close> is the
  temporary file after \<open>k\<close> redirections from \<open>p\<close>, when the first \<open>k\<close> paths are
  symlink markers whose responses arrive and decode, and the path after them is fetched
  and is no marker; \<open>None\<close> otherwise.
\<close>

primrec follow_chain :: "'w env \<Rightarrow> updater \<Rightarrow> nat \<Rightarrow> string \<Rightarrow> tmpfile \<Rightarrow> tmpfile option" where
  "follow_chain e u 0 file_location fileHandle =
     (case repoInstanceLocation u of
        None \<Rightarrow> None
      | Some rloc \<Rightarrow>
          (case http_stream e (py_join3 (url u) rloc file_location) of
             None \<Rightarrow> None
           | Some body \<Rightarrow>
               (case newestSymlinks u of
                  None \<Rightarrow> None
                | Some symlinks \<Rightarrow>
                    if JStr file_location \<notin> set symlinks
                    then Some (tf_write fileHandle body) else None)))"
| "follow_chain e u (Suc k) file_location fileHandle =
     (case repoInstanceLocation u of
        None \<Rightarrow> None
      | Some rloc \<Rightarrow>
          (case http_stream e (py_join3 (url u) rloc file_location) of
             None \<Rightarrow> None
           | Some body \<Rightarrow>
               (case newestSymlinks u of
                  None \<Rightarrow> None
                | Some symlinks \<Rightarrow>
                    if JStr file_location \<in> set symlinks
                    then (case decode_ascii (tf_readline (tf_seek0 (tf_write fileHandle body))) of
                            None \<Rightarrow> None
                          | Some line \<Rightarrow>
                              follow_chain e u k
                                (py_join (py_dirname file_location) (py_strip line))
                                (tf_seek0 (tf_write fileHandle body)))
                    else None)))"

text \<open>A server with the markers \<open>l0\<close>, ..., \<open>l10\<close>, each pointing to the next, and the
  file \<open>f\<close> behind the last.\<close>

definition ex_chain_server :: "(string \<times> string) list" where
  "ex_chain_server =
     [(''https://r/srv/l0'', ''l1'' @ [newline]), (''https://r/srv/l1'', ''l2'' @ [newline]),
      (''https://r/srv/l2'', ''l3'' @ [newline]), (''https://r/srv/l3'', ''l4'' @ [newline]),
      (''https://r/srv/l4'', ''l5'' @ [newline]), (''https://r/srv/l5'', ''l6'' @ [newline]),
      (''https://r/srv/l6'', ''l7'' @ [newline]), (''https://r/srv/l7'', ''l8'' @ [newline]),
      (''https://r/srv/l8'', ''l9'' @ [newline]), (''https://r/srv/l9'', ''l10'' @ [newline]),
      (''https://r/srv/l10'', ''f'' @ [newline]), (''https://r/srv/f'', ''the file'')]"

definition ex_chain_updater :: updater where
  "ex_chain_updater =
     ex_updater\<lparr>newestFiles := Some [(''l0'', JStr (ex_hash ''the file'')), (''l1'', JStr (ex_hash ''the file''))],
                newestSymlinks := Some (map JStr [''l0'', ''l1'', ''l2'', ''l3'', ''l4'', ''l5'',
                                                  ''l6'', ''l7'', ''l8'', ''l9'', ''l10'']),
                lastChecked := 100, repoInstanceLocation := Some ''srv''\<rparr>"

text \<open>A server with one marker, \<open>latest\<close>, whose pointer file is longer than the file
  \<open>release.bin\<close> it points to.\<close>

definition ex_link_server :: "(string \<times> string) list" where
  "ex_link_server =
     [(''https://r/srv/latest'', ''release.bin'' @ [newline]), (''https://r/srv/release.bin'', ''v2'')]"

definition ex_link_updater :: updater where
  "ex_link_updater =
     ex_updater\<lparr>newestFiles := Some [(''latest'', JStr (ex_hash ''v2''))],
                newestSymlinks := Some [JStr ''latest''],
                lastChecked := 100, repoInstanceLocation := Some ''srv''\<rparr>"

text \<open>
  The version identity \<open>(version, revision)\<close> and its strict lexicographic order with
  the version as primary key, in Python's comparisons; and the remembered newest state.
\<close>

definition identity_lt :: "pyfloat \<times> int \<Rightarrow> pyfloat \<times> int \<Rightarrow> bool" where
  "identity_lt a b = (float_lt (fst a) (fst b) \<or> (float_eq (fst a) (fst b) \<and> snd a < snd b))"

definition newest_identity :: "updater \<Rightarrow> pyfloat \<times> int" where
  "newest_identity u = (newestVersion u, newestRev u)"

definition newest_state :: "updater \<Rightarrow> pyfloat \<times> int \<times> (string \<times> json) list option \<times> json list option" where
  "newest_state u = (newestVersion u, newestRev u, newestFiles u, newestSymlinks u)"

text \<open>A sequence of checks, each with its own server responses and time.\<close>

fun run_checks :: "('w env \<times> int) list \<Rightarrow> updater \<Rightarrow> updater" where
  "run_checks [] u = u"
| "run_checks ((e, t) # cs) u = run_checks cs (snd (priv_getNewestVersionInformation e t u))"

text \<open>An instance document with the given version and revision, a server that answers
  with it, and an updater that remembers version 2.0, revision 1.\<close>

definition ex_doc :: "real \<Rightarrow> int \<Rightarrow> json" where
  "ex_doc v r =
     JDict [(''version'', JFloat (Finite v)), (''rev'', JInt r), (''dependencies'', JDict []),
            (''files'', JDict [(''a'', JStr ''da39'')]), (''symlinks'', JList [])]"

definition ex_manifest_env :: "json \<Rightarrow> sfs env" where
  "ex_manifest_env doc =
     ex_env ex_hash [(''https://r/srv/instanceInfo.json'', ''doc'')] [(''doc'', doc)]"

definition ex_recorded :: updater where
  "ex_recorded =
     ex_updater\<lparr>newestVersion := Finite 2, newestRev := 1,
                newestFiles := Some [(''a'', JStr ''77de'')], newestSymlinks := Some [],
                lastChecked := 100,
                repoInfo := JDict [(''instances'', JDict [(''srv'', JDict [(''location'', JStr ''srv'')])])],
                repoInstanceLocation := Some ''srv'',
                instanceInfo := ex_doc 2 1\<rparr>"

text \<open>Two instance documents: one whose \<open>symlinks\<close> is a string, one whose \<open>version\<close>
  is an int.\<close>

definition ex_doc_symlinks :: json where
  "ex_doc_symlinks =
     JDict [(''version'', JFloat (Finite (5/2))), (''rev'', JInt 3), (''dependencies'', JDict []),
            (''files'', JDict []), (''symlinks'', JStr ''oops'')]"

definition ex_doc_version :: json where
  "ex_doc_version =
     JDict [(''version'', JInt 3), (''rev'', JInt 0), (''dependencies'', JDict []),
            (''files'', JDict [])]"

text \<open>An instance directory without write permission, and a new file in a directory
  that does not exist yet.\<close>

definition ex_ro_world :: sfs where
  "ex_ro_world = \<lparr>sfs_files = [], sfs_dirs = [''/opt'', ''/opt/i''], sfs_readonly = [''/opt/i'']\<rparr>"

definition ex_new_updater :: updater where
  "ex_new_updater =
     ex_updater\<lparr>newestFiles := Some [(''sub/x.txt'', JStr (ex_hash ''X''))],
                newestSymlinks := Some [], lastChecked := 100,
                repoInstanceLocation := Some ''srv''\<rparr>"

definition ex_new_server :: "(string \<times> string) list" where
  "ex_new_server = [(''https://r/srv/sub/x.txt'', ''X'')]"

text \<open>Two new files, of which the server has only the first; and an installation
  that is up to date.\<close>

definition ex_two_updater :: updater where
  "ex_two_updater =
     ex_updater\<lparr>newestFiles := Some [(''a'', JStr (ex_hash ''A'')), (''b'', JStr (ex_hash ''B''))],
                newestSymlinks := Some [], lastChecked := 100,
                repoInstanceLocation := Some ''srv''\<rparr>"

definition ex_empty_world :: sfs where
  "ex_empty_world = \<lparr>sfs_files = [], sfs_dirs = [''/opt'', ''/opt/i''], sfs_readonly = []\<rparr>"

definition ex_uptodate_updater :: updater where
  "ex_uptodate_updater =
     ex_updater\<lparr>newestFiles := Some [(''a'', JStr (ex_hash ''A''))],
                newestSymlinks := Some [], lastChecked := 100,
                repoInstanceLocation := Some ''srv'',
                localInstanceInfo := JDict [(''files'', JDict [(''a'', JStr (ex_hash ''A''))])]\<rparr>"

definition ex_uptodate_world :: sfs where
  "ex_uptodate_world =
     \<lparr>sfs_files = [(''/opt/i/a'', ''A'')], sfs_dirs = [''/opt'', ''/opt/i''], sfs_readonly = []\<rparr>"

text \<open>The changes that delete something, and the property that a list of changes has
  all its deletions first.\<close>

fun is_delete :: "fs_op \<Rightarrow> bool" where
  "is_delete (Remove p) = True"
| "is_delete (Rmdir p) = True"
| "is_delete _ = False"

definition deletes_first :: "fs_op list \<Rightarrow> bool" where
  "deletes_first ops = list_all (\<lambda>op. \<not> is_delete op) (dropWhile is_delete ops)"

text \<open>An update with one new file \<open>a\<close> and one file \<open>d\<close> to delete.\<close>

definition ex_mixed_updater :: updater where
  "ex_mixed_updater =
     ex_updater\<lparr>newestFiles := Some [(''a'', JStr (ex_hash ''A''))],
                newestSymlinks := Some [], lastChecked := 100,
                repoInstanceLocation := Some ''srv'',
                localInstanceInfo := JDict [(''files'', JDict [(''d'', JStr (ex_hash ''old''))])]\<rparr>"

definition ex_mixed_world :: sfs where
  "ex_mixed_world =
     \<lparr>sfs_files = [(''/opt/i/d'', ''old'')], sfs_dirs = [''/opt'', ''/opt/i''], sfs_readonly = []\<rparr>"

text \<open>The file \<open>a\<close> arrives damaged; \<open>b\<close> comes after it in the plan.\<close>

definition ex_damaged_handles :: "(string \<times> tmpfile) list" where
  "ex_damaged_handles =
     [(''a'', \<lparr>data = ''A?'', pos = 0, closed = False\<rparr>),
      (''b'', \<lparr>data = ''B'', pos = 0, closed = False\<rparr>)]"

text \<open>Two new files; the second is a symlink marker whose pointer file starts with a
  byte that is not ASCII.\<close>

definition ex_raise_server :: "(string \<times> string) list" where
  "ex_raise_server =
     [(''https://r/srv/a'', ''A''), (''https://r/srv/b'', [CHR 0xFF] @ ''x'' @ [newline])]"

definition ex_raise_updater :: updater where
  "ex_raise_updater =
     ex_updater\<lparr>newestFiles := Some [(''a'', JStr (ex_hash ''A'')), (''b'', JStr (ex_hash ''B''))],
                newestSymlinks := Some [JStr ''b''], lastChecked := 100,
                repoInstanceLocation := Some ''srv''\<rparr>"

text \<open>
  The apply phase as the amended claim C5 words it, to be compared with the loop of
  \<open>updateInstance\<close>. The new and modified files of a plan and its files to delete:
\<close>

definition writes_of :: "plan \<Rightarrow> plan" where
  "writes_of p = filter (\<lambda>(k, a). a \<noteq> DELETE) p"

definition deletes_of :: "plan \<Rightarrow> plan" where
  "deletes_of p = filter (\<lambda>(k, a). a = DELETE) p"

text \<open>The paths of the files written by a list of changes, in their order.\<close>

fun written :: "fs_op list \<Rightarrow> string list" where
  "written [] = []"
| "written (WriteFile p c # ops) = p # written ops"
| "written (op # ops) = written ops"

text \<open>The paths of the files removed by a list of changes, in their order.\<close>

fun removed :: "fs_op list \<Rightarrow> string list" where
  "removed [] = []"
| "removed (Remove p # ops) = p # removed ops"
| "removed (op # ops) = removed ops"

text \<open>
  The ancestor directories of a relative path, from its immediate parent upward, each
  the join of the leading path components: \<open>dirs_upward\<close> takes the directory
  components deepest first.
\<close>

fun dirs_upward :: "string list \<Rightarrow> string list" where
  "dirs_upward [] = []"
| "dirs_upward (d # ds) = foldl py_join [] (rev (d # ds)) # dirs_upward ds"

definition ancestor_dirs :: "string \<Rightarrow> string list" where
  "ancestor_dirs k = dirs_upward (rev (butlast (split_slash k)))"

text \<open>
  Pruning: remove the directories of the list one after the other as long as the
  directory is empty and its removal succeeds; stop at the first that is not empty
  (or cannot be listed or removed).
\<close>

fun prune_empty :: "'w env \<Rightarrow> string \<Rightarrow> string list \<Rightarrow> 'w sys \<Rightarrow> 'w sys" where
  "prune_empty e target [] s = s"
| "prune_empty e target (d # ds) s =
     (case os_listdir e (world s) (py_join target d) of
        Some [] \<Rightarrow>
          (case issue e (Rmdir (py_join target d)) s of
             (True, s') \<Rightarrow> prune_empty e target ds s'
           | (False, s') \<Rightarrow> s')
      | _ \<Rightarrow> s)"

text \<open>
  Processing the files to delete in their order: remove the file; when that fails, stop
  with \<open>False\<close>; otherwise prune its ancestor directories and go on.
\<close>

fun delete_entries :: "'w env \<Rightarrow> string \<Rightarrow> string list \<Rightarrow> 'w sys \<Rightarrow> bool outcome \<times> 'w sys" where
  "delete_entries e target [] s = (Returned True, s)"
| "delete_entries e target (k # ks) s =
     (case issue e (Remove (py_join target k)) s of
        (False, s1) \<Rightarrow> (Returned False, s1)
      | (True, s1) \<Rightarrow> delete_entries e target ks (prune_empty e target (ancestor_dirs k) s1))"

text \<open>An update with one new file \<open>a\<close> and one file to delete, \<open>x/y/d\<close>, which is the
  only file below \<open>x\<close>.\<close>

definition ex_nested_updater :: updater where
  "ex_nested_updater =
     ex_updater\<lparr>newestFiles := Some [(''a'', JStr (ex_hash ''A''))],
                newestSymlinks := Some [], lastChecked := 100,
                repoInstanceLocation := Some ''srv'',
                localInstanceInfo := JDict [(''files'', JDict [(''x/y/d'', JStr (ex_hash ''old''))])]\<rparr>"

definition ex_nested_world :: sfs where
  "ex_nested_world =
     \<lparr>sfs_files = [(''/opt/i/x/y/d'', ''old'')],
      sfs_dirs = [''/opt'', ''/opt/i'', ''/opt/i/x'', ''/opt/i/x/y''], sfs_readonly = []\<rparr>"

section \<open>Dictionaries\<close>

lemmas ex_simps = ex_env_def ex_hash_def ex_updater_def ex_sys_def sfs_exists_def sfs_access_w_def
  sfs_children_def sfs_listdir_def dict_get_def dict_keys_def py_join_def py_join3_def slash_def
  py_dirname_def newline_def

lemma dict_get_dict_set:
  "dict_get (dict_set d k v) k' = (if k' = k then Some v else dict_get d k')"
  by (induction d) (auto simp: dict_get_def)

lemma dict_keys_dict_set_list:
  "dict_keys (dict_set d k v) = (if k \<in> set (dict_keys d) then dict_keys d else dict_keys d @ [k])"
  by (induction d) (force simp: dict_keys_def)+

lemma dict_keys_dict_set:
  "set (dict_keys (dict_set d k v)) = insert k (set (dict_keys d))"
  by (auto simp: dict_keys_dict_set_list)

lemma distinct_dict_set:
  "distinct (dict_keys d) \<Longrightarrow> distinct (dict_keys (dict_set d k v))"
  by (simp add: dict_keys_dict_set_list)

lemma dict_get_None_iff: "dict_get d k = None \<longleftrightarrow> k \<notin> set (dict_keys d)"
  by (simp add: dict_get_def dict_keys_def map_of_eq_None_iff)

section \<open>Properties of the diff planner\<close>

lemma scan_remote_lookup:
  "scan_remote e w loc files ks acc = Some p \<Longrightarrow>
   dict_get p k = (if k \<in> set ks \<and> remote_action e w loc files k \<noteq> None
                   then remote_action e w loc files k else dict_get acc k)"
proof (induction ks arbitrary: acc)
  case Nil
  then show ?case by simp
next
  case (Cons a ks)
  then show ?case
    by (auto simp: remote_action_def dict_get_dict_set split: if_splits option.splits)
qed

lemma scan_remote_distinct:
  "scan_remote e w loc files ks acc = Some p \<Longrightarrow> distinct (dict_keys acc) \<Longrightarrow> distinct (dict_keys p)"
proof (induction ks arbitrary: acc)
  case Nil
  then show ?case by simp
next
  case (Cons a ks)
  then show ?case
    by (auto simp: distinct_dict_set split: if_splits option.splits)
qed

lemma scan_local_lookup:
  "dict_get (scan_local fl ks acc) k =
     (if k \<in> set ks \<and> k \<notin> set fl then Some DELETE else dict_get acc k)"
  by (induction ks arbitrary: acc) (auto simp: dict_get_dict_set)

lemma scan_local_distinct:
  "distinct (dict_keys acc) \<Longrightarrow> distinct (dict_keys (scan_local fl ks acc))"
  by (induction ks arbitrary: acc) (auto simp: distinct_dict_set)

lemma checkFiles_result:
  assumes "priv_checkFilesToUpdate e t t' w u = (Returned (Some p), u')"
  shows "\<exists>files li lf p1. newestFiles u' = Some files
           \<and> scan_remote e w (instanceLocation u') files (dict_keys files) [] = Some p1
           \<and> localInstanceInfo u' = JDict li \<and> dict_get li ''files'' = Some (JDict lf)
           \<and> p = scan_local (dict_keys files) (dict_keys lf) p1"
  using assms
  unfolding priv_checkFilesToUpdate_def
  by (auto simp: Let_def split: if_splits prod.splits option.splits json.splits)


text \<open>The planner returns a plan whenever the cache is fresh, the local record has an
  object under \<open>files\<close> and every remote path that exists on disk can be read.\<close>

lemma scan_remote_returns:
  "\<forall>k \<in> set ks. os_exists e w (py_join loc k) \<longrightarrow> os_read e w (py_join loc k) \<noteq> None
   \<Longrightarrow> \<exists>p. scan_remote e w loc files ks acc = Some p"
  by (induction ks arbitrary: acc) auto

lemma checkFilesToUpdate_returns:
  assumes "\<not> t - lastChecked u > 60" "newestFiles u = Some files" "newestSymlinks u = Some sl"
    and "localInstanceInfo u = JDict li" "dict_get li ''files'' = Some (JDict lf)"
    and "\<forall>k \<in> set (dict_keys files).
           os_exists e w (py_join (instanceLocation u) k)
           \<longrightarrow> os_read e w (py_join (instanceLocation u) k) \<noteq> None"
  shows "\<exists>p. priv_checkFilesToUpdate e t t' w u = (Returned (Some p), u)"
proof -
  from scan_remote_returns [OF assms(6), of files "[]"] obtain p1 where
    "scan_remote e w (instanceLocation u) files (dict_keys files) [] = Some p1"
    by blast
  with assms(1-5) show ?thesis
    by (simp add: priv_checkFilesToUpdate_def)
qed

text \<open>
  Claim C2. Whenever \<open>_checkFilesToUpdate\<close> returns a plan: a path of the remote map
  that does not exist on disk is \<open>NEW\<close> (whatever the local record says); one that
  exists with a different digest is \<open>MODIFY\<close>; one that exists with the same digest is
  not in the plan; a path of the local record that is not in the remote map is
  \<open>DELETE\<close>; and the plan has every path at most once.
\<close>

theorem plan_classification:
  assumes "priv_checkFilesToUpdate e t t' w u = (Returned (Some p), u')"
  shows "\<exists>remote li lf.
           newestFiles u' = Some remote \<and> localInstanceInfo u' = JDict li
         \<and> dict_get li ''files'' = Some (JDict lf)
         \<and> (\<forall>k \<in> set (dict_keys remote).
               \<not> os_exists e w (py_join (instanceLocation u') k) \<longrightarrow> dict_get p k = Some NEW)
         \<and> (\<forall>k \<in> set (dict_keys remote). \<forall>c.
               os_exists e w (py_join (instanceLocation u') k)
               \<and> os_read e w (py_join (instanceLocation u') k) = Some c
               \<and> dict_get remote k \<noteq> Some (JStr (sha256 e c)) \<longrightarrow> dict_get p k = Some MODIFY)
         \<and> (\<forall>k \<in> set (dict_keys remote). \<forall>c.
               os_exists e w (py_join (instanceLocation u') k)
               \<and> os_read e w (py_join (instanceLocation u') k) = Some c
               \<and> dict_get remote k = Some (JStr (sha256 e c)) \<longrightarrow> dict_get p k = None)
         \<and> (\<forall>k \<in> set (dict_keys lf). k \<notin> set (dict_keys remote) \<longrightarrow> dict_get p k = Some DELETE)
         \<and> distinct (dict_keys p)"
proof -
  from checkFiles_result [OF assms] obtain files li lf p1 where
    nf: "newestFiles u' = Some files"
    and sr: "scan_remote e w (instanceLocation u') files (dict_keys files) [] = Some p1"
    and li: "localInstanceInfo u' = JDict li" "dict_get li ''files'' = Some (JDict lf)"
    and p: "p = scan_local (dict_keys files) (dict_keys lf) p1"
    by blast
  have get: "dict_get p k =
      (if k \<in> set (dict_keys lf) \<and> k \<notin> set (dict_keys files) then Some DELETE
       else if k \<in> set (dict_keys files) \<and> remote_action e w (instanceLocation u') files k \<noteq> None
       then remote_action e w (instanceLocation u') files k else None)" for k
    unfolding p scan_local_lookup scan_remote_lookup [OF sr]
    by (simp add: dict_get_def)
  have new: "\<forall>k \<in> set (dict_keys files).
      \<not> os_exists e w (py_join (instanceLocation u') k) \<longrightarrow> dict_get p k = Some NEW"
    by (simp add: get remote_action_def)
  have modify: "\<forall>k \<in> set (dict_keys files). \<forall>c.
      os_exists e w (py_join (instanceLocation u') k)
      \<and> os_read e w (py_join (instanceLocation u') k) = Some c
      \<and> dict_get files k \<noteq> Some (JStr (sha256 e c)) \<longrightarrow> dict_get p k = Some MODIFY"
    by (simp add: get remote_action_def)
  have same: "\<forall>k \<in> set (dict_keys files). \<forall>c.
      os_exists e w (py_join (instanceLocation u') k)
      \<and> os_read e w (py_join (instanceLocation u') k) = Some c
      \<and> dict_get files k = Some (JStr (sha256 e c)) \<longrightarrow> dict_get p k = None"
    by (simp add: get remote_action_def)
  have del: "\<forall>k \<in> set (dict_keys lf). k \<notin> set (dict_keys files) \<longrightarrow> dict_get p k = Some DELETE"
    by (simp add: get)
  have "distinct (dict_keys p1)"
    using scan_remote_distinct [OF sr] by (simp add: dict_keys_def)
  then have dist: "distinct (dict_keys p)"
    unfolding p by (rule scan_local_distinct)
  from nf li new modify same del dist show ?thesis
    by blast
qed

theorem plan_classification_witness:
  "priv_checkFilesToUpdate (ex_env ex_hash [] []) 110 110 ex_plan_world ex_plan_updater
     = (Returned (Some [(''a'', NEW), (''b'', MODIFY), (''d'', DELETE)]), ex_plan_updater)
   \<and> (\<exists>remote li lf.
           newestFiles ex_plan_updater = Some remote \<and> localInstanceInfo ex_plan_updater = JDict li
         \<and> dict_get li ''files'' = Some (JDict lf)
         \<and> ''a'' \<in> set (dict_keys remote) \<and> ''a'' \<in> set (dict_keys lf)
         \<and> ''d'' \<in> set (dict_keys lf) \<and> ''d'' \<notin> set (dict_keys remote))"
proof -
  have run: "priv_checkFilesToUpdate (ex_env ex_hash [] []) 110 110 ex_plan_world ex_plan_updater
     = (Returned (Some [(''a'', NEW), (''b'', MODIFY), (''d'', DELETE)]), ex_plan_updater)"
    by (simp add: priv_checkFilesToUpdate_def ex_plan_updater_def ex_plan_world_def ex_simps)
  have "newestFiles ex_plan_updater = Some [(''a'', JStr (ex_hash ''A'')), (''b'', JStr (ex_hash ''new'')),
                                     (''c'', JStr (ex_hash ''same''))]"
    by (simp add: ex_plan_updater_def ex_updater_def)
  show ?thesis
    using run plan_classification [OF run]
    by (simp add: ex_plan_updater_def ex_updater_def dict_get_def dict_keys_def)
qed

section \<open>Properties of the fetcher\<close>

declare download_loop.simps [simp del]

lemma download_loop_follows:
  "follow_chain e u k loc fh = Some fh' \<Longrightarrow> ctr + k \<le> max_redirections u \<Longrightarrow>
   fst (download_loop e u ctr loc fh s) = DlHandle fh'"
proof (induction k arbitrary: ctr loc fh s)
  case 0
  then show ?case
    by (subst download_loop.simps) (auto split: option.splits if_splits)
next
  case (Suc k)
  from Suc.prems(2) have le: "Suc ctr + k \<le> max_redirections u" by simp
  from Suc.prems show ?case
    by (subst download_loop.simps)
       (auto split: option.splits if_splits simp: Suc.IH [OF _ le])
qed

lemma download_loop_too_many:
  "follow_chain e u k loc fh = Some fh' \<Longrightarrow> max_redirections u < ctr + k \<Longrightarrow>
   fst (download_loop e u ctr loc fh s) = DlNone TooManyRedirections"
proof (induction k arbitrary: ctr loc fh s)
  case 0
  then show ?case
    by (subst download_loop.simps) simp
next
  case (Suc k)
  show ?case
  proof (cases "max_redirections u < ctr")
    case True
    then show ?thesis by (subst download_loop.simps) simp
  next
    case False
    from Suc.prems(2) have lt: "max_redirections u < Suc ctr + k" by simp
    from Suc.prems(1) False show ?thesis
      by (subst download_loop.simps)
         (auto split: option.splits if_splits simp: Suc.IH [OF _ lt])
  qed
qed

lemma downloadFile_of_loop:
  assumes "tempfile_ok e"
  shows "fst (priv_downloadFile e u file_location file_hash s)
           = (case fst (download_loop e u 0 file_location tf_new s) of
                DlHandle fileHandle \<Rightarrow>
                  if JStr (sha256 e (data fileHandle)) = file_hash
                  then DlHandle (tf_seek0 fileHandle) else DlNone DigestMismatch
              | r \<Rightarrow> r)"
proof -
  obtain r s1 where loop: "download_loop e u 0 file_location tf_new s = (r, s1)"
    by (cases "download_loop e u 0 file_location tf_new s")
  show ?thesis
    unfolding priv_downloadFile_def loop
    using assms by (cases r) (simp_all add: priv_sha256File_def tf_seek0_def)
qed

text \<open>
  Claim C3. With the configured maximum of 10 redirections, and a temporary file and
  transport that work: a download that needs \<open>k \<le> 10\<close> redirections gets through the
  loop and is decided by the digest check alone; one that needs 11 or more fails with
  the too-many-redirections error.
\<close>

theorem redirection_bound:
  assumes chain: "follow_chain e u k file_location tf_new = Some fh"
    and tmp: "tempfile_ok e"
    and mx: "max_redirections u = 10"
  shows "(k \<le> 10 \<longrightarrow>
            fst (priv_downloadFile e u file_location file_hash s)
              = (if JStr (sha256 e (data fh)) = file_hash then DlHandle (tf_seek0 fh)
                 else DlNone DigestMismatch))
       \<and> (11 \<le> k \<longrightarrow>
            fst (priv_downloadFile e u file_location file_hash s) = DlNone TooManyRedirections)"
proof (intro conjI impI)
  assume "k \<le> 10"
  then have "fst (download_loop e u 0 file_location tf_new s) = DlHandle fh"
    using download_loop_follows [OF chain, of 0 s] mx by simp
  then show "fst (priv_downloadFile e u file_location file_hash s)
              = (if JStr (sha256 e (data fh)) = file_hash then DlHandle (tf_seek0 fh)
                 else DlNone DigestMismatch)"
    by (simp add: downloadFile_of_loop [OF tmp])
next
  assume "11 \<le> k"
  then have "fst (download_loop e u 0 file_location tf_new s) = DlNone TooManyRedirections"
    using download_loop_too_many [OF chain, of 0 s] mx by simp
  then show "fst (priv_downloadFile e u file_location file_hash s) = DlNone TooManyRedirections"
    by (simp add: downloadFile_of_loop [OF tmp])
qed

lemmas tf_simps = tf_new_def tf_write_def tf_seek0_def tf_readline_def tf_close_def
  decode_ascii_def py_strip_def py_isspace_def

lemma ex_chain_10:
  "follow_chain (ex_env ex_hash ex_chain_server []) ex_chain_updater 10 ''l1'' tf_new
     = Some \<lparr>data = ''the file'', pos = 8, closed = False\<rparr>"
proof -
  have n: "(10::nat) = Suc (Suc (Suc (Suc (Suc (Suc (Suc (Suc (Suc (Suc 0)))))))))" by simp
  show ?thesis
    unfolding n
    by (simp add: ex_chain_server_def ex_chain_updater_def ex_simps tf_simps)
qed

lemma ex_chain_11:
  "follow_chain (ex_env ex_hash ex_chain_server []) ex_chain_updater 11 ''l0'' tf_new
     = Some \<lparr>data = ''the file'', pos = 8, closed = False\<rparr>"
proof -
  have n: "(11::nat) = Suc (Suc (Suc (Suc (Suc (Suc (Suc (Suc (Suc (Suc (Suc 0))))))))))" by simp
  show ?thesis
    unfolding n
    by (simp add: ex_chain_server_def ex_chain_updater_def ex_simps tf_simps)
qed

theorem redirection_bound_witness:
  "fst (priv_downloadFile (ex_env ex_hash ex_chain_server []) ex_chain_updater ''l1''
          (JStr (ex_hash ''the file'')) (ex_sys ex_plan_world))
     = DlHandle \<lparr>data = ''the file'', pos = 0, closed = False\<rparr>
   \<and> fst (priv_downloadFile (ex_env ex_hash ex_chain_server []) ex_chain_updater ''l0''
          (JStr (ex_hash ''the file'')) (ex_sys ex_plan_world))
     = DlNone TooManyRedirections"
proof -
  have tmp: "tempfile_ok (ex_env ex_hash ex_chain_server [])"
    by (simp add: ex_env_def)
  have mx: "max_redirections ex_chain_updater = 10"
    by (simp add: ex_chain_updater_def ex_updater_def)
  have h: "sha256 (ex_env ex_hash ex_chain_server []) = ex_hash"
    by (simp add: ex_env_def)
  show ?thesis
    using redirection_bound [OF ex_chain_10 tmp mx, of "JStr (ex_hash ''the file'')" "ex_sys ex_plan_world"]
          redirection_bound [OF ex_chain_11 tmp mx, of "JStr (ex_hash ''the file'')" "ex_sys ex_plan_world"]
    by (simp add: h tf_seek0_def)
qed

lemma downloadFile_handle_digest:
  assumes "priv_downloadFile e u file_location file_hash s = (DlHandle fh, s')"
  shows "JStr (sha256 e (data fh)) = file_hash"
proof -
  obtain r s1 where loop: "download_loop e u 0 file_location tf_new s = (r, s1)"
    by (cases "download_loop e u 0 file_location tf_new s")
  from assms show ?thesis
    unfolding priv_downloadFile_def loop
    by (cases r) (auto simp: priv_sha256File_def tf_seek0_def split: if_splits)
qed

lemma downloadFile_no_symlink:
  assumes "tempfile_ok e" "repoInstanceLocation u = Some rloc"
    and "http_stream e (py_join3 (url u) rloc file_location) = Some body"
    and "newestSymlinks u = Some symlinks" "JStr file_location \<notin> set symlinks"
  shows "fst (priv_downloadFile e u file_location file_hash s)
           = (if JStr (sha256 e body) = file_hash
              then DlHandle \<lparr>data = body, pos = 0, closed = False\<rparr>
              else DlNone DigestMismatch)"
proof -
  have "fst (download_loop e u 0 file_location tf_new s) = DlHandle (tf_write tf_new body)"
    using assms by (subst download_loop.simps) simp
  then show ?thesis
    by (simp add: downloadFile_of_loop [OF assms(1)] tf_write_def tf_new_def tf_seek0_def)
qed

text \<open>
  Claim C1. The digest that \<open>_downloadFile\<close> compares is the digest of the temporary
  file, and after a redirection the temporary file is the last response written over
  the pointer file, which is not truncated. Here the last response is \<open>v2\<close> and the
  pointer file was longer: with the digest of the bytes \<open>v2lease.bin\<close> plus newline as
  expected digest a handle with these bytes is returned, although the digest of the
  received content \<open>v2\<close> is another one; with the digest of \<open>v2\<close> as expected digest the
  download fails.
\<close>

theorem download_hashes_stale_tail:
  "http_stream (ex_env ex_hash ex_link_server []) ''https://r/srv/release.bin'' = Some ''v2''
   \<and> fst (priv_downloadFile (ex_env ex_hash ex_link_server []) ex_link_updater ''latest''
            (JStr (ex_hash (''v2lease.bin'' @ [newline]))) (ex_sys ex_plan_world))
       = DlHandle \<lparr>data = ''v2lease.bin'' @ [newline], pos = 0, closed = False\<rparr>
   \<and> ex_hash ''v2'' \<noteq> ex_hash (''v2lease.bin'' @ [newline])
   \<and> fst (priv_downloadFile (ex_env ex_hash ex_link_server []) ex_link_updater ''latest''
            (JStr (ex_hash ''v2'')) (ex_sys ex_plan_world))
       = DlNone DigestMismatch"
proof -
  have tmp: "tempfile_ok (ex_env ex_hash ex_link_server [])"
    by (simp add: ex_env_def)
  have loop: "fst (download_loop (ex_env ex_hash ex_link_server []) ex_link_updater 0 ''latest'' tf_new
                     (ex_sys ex_plan_world))
                = DlHandle \<lparr>data = ''v2lease.bin'' @ [newline], pos = 2, closed = False\<rparr>"
    by (simp add: download_loop.simps ex_link_server_def ex_link_updater_def ex_simps tf_simps)
  show ?thesis
    by (simp add: downloadFile_of_loop [OF tmp] loop tf_seek0_def)
       (simp add: ex_env_def ex_link_server_def ex_hash_def)
qed

section \<open>Properties of the manifest client\<close>

lemma repo_location_newest:
  "repo_location e insts u = (r, u') \<Longrightarrow> newest_state u' = newest_state u"
  by (auto simp: repo_location_def newest_state_def split: option.splits json.splits)

lemma getRepositoryInformation_newest:
  assumes "priv_getRepositoryInformation e u = (r, u')"
  shows "newest_state u' = newest_state u"
proof -
  have upd: "newest_state (u\<lparr>repoInfo := j\<rparr>) = newest_state u"
    "newest_state (u\<lparr>repo_version := v\<rparr>) = newest_state u" for u j v
    by (simp_all add: newest_state_def)
  from assms show ?thesis
    unfolding priv_getRepositoryInformation_def
    by (auto simp: Let_def upd split: option.splits json.splits if_splits
             dest!: repo_location_newest)
qed

lemma getInstanceInformation_newest:
  assumes "priv_getInstanceInformation e u = (ok, u')"
  shows "newest_state u' = newest_state u"
proof -
  have upd: "newest_state (u\<lparr>instanceInfo := j\<rparr>) = newest_state u" for u j
    by (simp add: newest_state_def)
  from assms show ?thesis
    unfolding priv_getInstanceInformation_def
    by (auto simp: Let_def upd split: option.splits if_splits prod.splits outcome.splits bool.splits
             dest!: getRepositoryInformation_newest)
qed

lemma float_eq_sym: "float_eq a b = float_eq b a"
  by (auto simp: float_eq_def)

lemma float_lt_trans: "float_lt a b \<Longrightarrow> float_lt b c \<Longrightarrow> float_lt a c"
  by (cases a; cases b; cases c) auto

lemma float_lt_irrefl: "\<not> float_lt a a"
  by (cases a) auto

lemma float_lt_asym: "float_lt a b \<Longrightarrow> \<not> float_lt b a"
  by (cases a; cases b) auto

lemma identity_lt_trans: "identity_lt a b \<Longrightarrow> identity_lt b c \<Longrightarrow> identity_lt a c"
proof -
  assume ab: "identity_lt a b" and bc: "identity_lt b c"
  obtain a1 a2 b1 b2 c1 c2 where [simp]: "a = (a1, a2)" "b = (b1, b2)" "c = (c1, c2)"
    by (cases a; cases b; cases c) auto
  from ab have ab': "float_lt a1 b1 \<or> (a1 = b1 \<and> a1 \<noteq> NaN \<and> a2 < b2)"
    by (auto simp: identity_lt_def float_eq_def)
  from bc have bc': "float_lt b1 c1 \<or> (b1 = c1 \<and> b1 \<noteq> NaN \<and> b2 < c2)"
    by (auto simp: identity_lt_def float_eq_def)
  from ab' bc' have "float_lt a1 c1 \<or> (a1 = c1 \<and> a1 \<noteq> NaN \<and> a2 < c2)"
    using float_lt_trans [of a1 b1 c1] by auto
  then show ?thesis
    by (auto simp: identity_lt_def float_eq_def)
qed

lemma identity_lt_irrefl: "\<not> identity_lt a a"
  by (simp add: identity_lt_def float_lt_irrefl)

lemma identity_lt_asym: "identity_lt a b \<Longrightarrow> \<not> identity_lt b a"
  using identity_lt_trans [of a b a] identity_lt_irrefl [of a] by blast

lemma newer_or_unset_iff:
  "newer_or_unset v r u \<longleftrightarrow>
     identity_lt (newest_identity u) (v, r) \<or> newestFiles u = None \<or> newestSymlinks u = None"
  by (auto simp: newer_or_unset_def identity_lt_def newest_identity_def float_gt_def float_eq_def)

lemma getNewestVersionInformation_step:
  assumes "priv_getNewestVersionInformation e t u = (ok, u')"
  shows "(\<not> ok \<and> newest_state u' = newest_state u)
       \<or> (ok \<and> (\<exists>v r fs sl. parse_version (instanceInfo u') = Some (v, r, fs, sl)
                \<and> newest_state u' = (if newer_or_unset v r u then (v, r, Some fs, Some sl)
                                      else newest_state u)))"
proof -
  obtain ok1 u1 where inst: "priv_getInstanceInformation e u = (ok1, u1)"
    by (cases "priv_getInstanceInformation e u")
  have same: "newest_state u1 = newest_state u"
    by (rule getInstanceInformation_newest [OF inst])
  have nu: "newer_or_unset v r u1 = newer_or_unset v r u" for v r
    using same by (simp add: newer_or_unset_def newest_state_def)
  show ?thesis
  proof (cases "ok1 \<and> parse_version (instanceInfo u1) \<noteq> None")
    case False
    with assms inst same show ?thesis
      by (auto simp: priv_getNewestVersionInformation_def split: bool.splits option.splits)
  next
    case True
    then obtain v r fs sl where pv: "parse_version (instanceInfo u1) = Some (v, r, fs, sl)"
      by (cases "parse_version (instanceInfo u1)") auto
    from True assms inst pv have ok: "ok"
      and u': "u' = (if newer_or_unset v r u
                     then u1\<lparr>newestVersion := v, newestRev := r, newestFiles := Some fs,
                             newestSymlinks := Some sl\<rparr>
                     else u1)\<lparr>lastChecked := t\<rparr>"
      by (auto simp: priv_getNewestVersionInformation_def Let_def nu)
    have pv': "parse_version (instanceInfo u') = Some (v, r, fs, sl)"
      using pv by (simp add: u')
    have st: "newest_state u' = (if newer_or_unset v r u then (v, r, Some fs, Some sl)
                                  else newest_state u)"
      using same by (simp add: u' newest_state_def)
    from ok pv' st show ?thesis by blast
  qed
qed

lemma step_recorded:
  assumes "priv_getNewestVersionInformation e t u = (ok, u')"
    and "newestFiles u \<noteq> None" "newestSymlinks u \<noteq> None"
  shows "newestFiles u' \<noteq> None \<and> newestSymlinks u' \<noteq> None
       \<and> (newest_identity u' = newest_identity u
          \<or> identity_lt (newest_identity u) (newest_identity u'))"
  using getNewestVersionInformation_step [OF assms(1)] assms(2,3)
  by (auto simp: newer_or_unset_iff newest_state_def newest_identity_def split: if_splits)

lemma run_checks_monotone:
  "newestFiles u \<noteq> None \<Longrightarrow> newestSymlinks u \<noteq> None \<Longrightarrow>
   newestFiles (run_checks cs u) \<noteq> None \<and> newestSymlinks (run_checks cs u) \<noteq> None
   \<and> (newest_identity (run_checks cs u) = newest_identity u
      \<or> identity_lt (newest_identity u) (newest_identity (run_checks cs u)))"
proof (induction cs arbitrary: u)
  case Nil
  then show ?case by simp
next
  case (Cons c cs)
  obtain e t where c: "c = (e, t)" by (cases c)
  obtain ok u' where st: "priv_getNewestVersionInformation e t u = (ok, u')"
    by (cases "priv_getNewestVersionInformation e t u")
  from step_recorded [OF st Cons.prems] have
    rec: "newestFiles u' \<noteq> None" "newestSymlinks u' \<noteq> None"
    and mono: "newest_identity u' = newest_identity u
               \<or> identity_lt (newest_identity u) (newest_identity u')"
    by auto
  from Cons.IH [OF rec] mono show ?case
    by (auto simp: c st dest: identity_lt_trans)
qed

text \<open>
  Claim C8. For every call of \<open>_getNewestVersionInformation\<close>: when the remembered newest
  state changes, the call succeeded, the new state is the fetched one, and the fetched
  identity is strictly newer than the remembered one or no files or symlinks were
  remembered; when files and symlinks were remembered and the fetched identity is older
  or equal, the remembered state stays as it is; and over any sequence of checks that
  starts with remembered files and symlinks, the remembered identity stays the same or
  becomes strictly newer.
\<close>

theorem newest_version_bookkeeping:
  assumes "priv_getNewestVersionInformation e t u = (ok, u')"
  shows "(newest_state u' \<noteq> newest_state u \<longrightarrow>
            ok \<and> (\<exists>v r fs sl. parse_version (instanceInfo u') = Some (v, r, fs, sl)
                   \<and> newest_state u' = (v, r, Some fs, Some sl)
                   \<and> (identity_lt (newest_identity u) (v, r)
                      \<or> newestFiles u = None \<or> newestSymlinks u = None)))
       \<and> (\<forall>v r fs sl.
            ok \<and> parse_version (instanceInfo u') = Some (v, r, fs, sl)
            \<and> newestFiles u \<noteq> None \<and> newestSymlinks u \<noteq> None
            \<and> (identity_lt (v, r) (newest_identity u) \<or> (v, r) = newest_identity u)
            \<longrightarrow> newest_state u' = newest_state u)
       \<and> (newestFiles u \<noteq> None \<and> newestSymlinks u \<noteq> None \<longrightarrow>
            newest_identity (run_checks cs u) = newest_identity u
            \<or> identity_lt (newest_identity u) (newest_identity (run_checks cs u)))"
proof -
  have changed: "newest_state u' \<noteq> newest_state u \<longrightarrow>
            ok \<and> (\<exists>v r fs sl. parse_version (instanceInfo u') = Some (v, r, fs, sl)
                   \<and> newest_state u' = (v, r, Some fs, Some sl)
                   \<and> (identity_lt (newest_identity u) (v, r)
                      \<or> newestFiles u = None \<or> newestSymlinks u = None))"
    using getNewestVersionInformation_step [OF assms]
    by (auto simp: newer_or_unset_iff split: if_splits)
  have older: "newest_state u' = newest_state u"
    if a: "ok \<and> parse_version (instanceInfo u') = Some (v, r, fs, sl)
            \<and> newestFiles u \<noteq> None \<and> newestSymlinks u \<noteq> None
            \<and> (identity_lt (v, r) (newest_identity u) \<or> (v, r) = newest_identity u)"
    for v r fs sl
  proof -
    have "\<not> identity_lt (newest_identity u) (v, r)"
      using a identity_lt_asym [of "(v, r)" "newest_identity u"] identity_lt_irrefl [of "(v, r)"]
      by auto
    with a have "\<not> newer_or_unset v r u"
      by (simp add: newer_or_unset_iff)
    with a getNewestVersionInformation_step [OF assms] show ?thesis
      by auto
  qed
  have seq: "newestFiles u \<noteq> None \<and> newestSymlinks u \<noteq> None \<longrightarrow>
            newest_identity (run_checks cs u) = newest_identity u
            \<or> identity_lt (newest_identity u) (newest_identity (run_checks cs u))"
    using run_checks_monotone [of u cs] by blast
  from changed older seq show ?thesis
    by blast
qed

lemmas manifest_simps = priv_getNewestVersionInformation_def priv_getInstanceInformation_def
  instanceInfo_checks_def parse_version_def newer_or_unset_def float_gt_def float_eq_def

theorem newest_version_bookkeeping_witness:
  "priv_getNewestVersionInformation (ex_manifest_env (ex_doc (3/2) 7)) 200 ex_recorded
     = (True, ex_recorded\<lparr>instanceInfo := ex_doc (3/2) 7, lastChecked := 200\<rparr>)
   \<and> identity_lt (Finite (3/2), 7) (newest_identity ex_recorded)
   \<and> newest_state (ex_recorded\<lparr>instanceInfo := ex_doc (3/2) 7, lastChecked := 200\<rparr>)
       = newest_state ex_recorded
   \<and> priv_getNewestVersionInformation (ex_manifest_env (ex_doc 2 3)) 200 ex_recorded
     = (True, ex_recorded\<lparr>newestVersion := Finite 2, newestRev := 3,
                           newestFiles := Some [(''a'', JStr ''da39'')], newestSymlinks := Some [],
                           instanceInfo := ex_doc 2 3, lastChecked := 200\<rparr>)
   \<and> identity_lt (newest_identity ex_recorded) (Finite 2, 3)"
proof -
  have older: "priv_getNewestVersionInformation (ex_manifest_env (ex_doc (3/2) 7)) 200 ex_recorded
     = (True, ex_recorded\<lparr>instanceInfo := ex_doc (3/2) 7, lastChecked := 200\<rparr>)"
    by (simp add: manifest_simps ex_manifest_env_def ex_doc_def ex_recorded_def ex_simps)
  have newer: "priv_getNewestVersionInformation (ex_manifest_env (ex_doc 2 3)) 200 ex_recorded
     = (True, ex_recorded\<lparr>newestVersion := Finite 2, newestRev := 3,
                           newestFiles := Some [(''a'', JStr ''da39'')], newestSymlinks := Some [],
                           instanceInfo := ex_doc 2 3, lastChecked := 200\<rparr>)"
    by (simp add: manifest_simps ex_manifest_env_def ex_doc_def ex_recorded_def ex_simps)
  have pv: "parse_version (ex_doc (3/2) 7) = Some (Finite (3/2), 7, [(''a'', JStr ''da39'')], [])"
    by (simp add: parse_version_def ex_doc_def dict_get_def dict_keys_def)
  have lt: "identity_lt (Finite (3/2), 7) (newest_identity ex_recorded)"
    by (simp add: identity_lt_def newest_identity_def ex_recorded_def ex_updater_def)
  have rec: "newestFiles ex_recorded \<noteq> None \<and> newestSymlinks ex_recorded \<noteq> None"
    by (simp add: ex_recorded_def ex_updater_def)
  have "newest_state (ex_recorded\<lparr>instanceInfo := ex_doc (3/2) 7, lastChecked := 200\<rparr>)
          = newest_state ex_recorded"
    using newest_version_bookkeeping [OF older, of "[]"] pv lt rec by simp
  moreover have "identity_lt (newest_identity ex_recorded) (Finite 2, 3)"
    using newest_version_bookkeeping [OF newer, of "[]"]
    by (simp add: newest_state_def newest_identity_def ex_recorded_def ex_updater_def ex_doc_def
                  parse_version_def dict_get_def dict_keys_def)
  ultimately show ?thesis
    using older newer lt by simp
qed

text \<open>
  Claim C7. A document whose \<open>symlinks\<close> is a string passes \<open>_getInstanceInformation\<close>:
  \<open>getInstanceInformation\<close> returns it and keeps it in \<open>instanceInfo\<close>. A document whose
  \<open>version\<close> is not a float is reported (\<open>False\<close>), but it has replaced the document
  that \<open>instanceInfo\<close> held before.
\<close>

theorem invalid_manifest_is_kept:
  "getInstanceInformation (ex_manifest_env ex_doc_symlinks) 200 ex_recorded
     = (Returned ex_doc_symlinks, ex_recorded\<lparr>instanceInfo := ex_doc_symlinks\<rparr>)
   \<and> priv_getInstanceInformation (ex_manifest_env ex_doc_version) ex_recorded
     = (False, ex_recorded\<lparr>instanceInfo := ex_doc_version\<rparr>)
   \<and> instanceInfo ex_recorded = ex_doc 2 1
   \<and> ex_doc_version \<noteq> ex_doc 2 1"
  by (simp add: getInstanceInformation_def priv_getInstanceInformation_def instanceInfo_checks_def
        ex_manifest_env_def ex_doc_symlinks_def ex_doc_version_def ex_doc_def ex_recorded_def ex_simps)

section \<open>Properties of the permission audit\<close>

lemmas update_simps = updateInstance_def priv_checkFilesToUpdate_def priv_createSubDirectories_def
  priv_deleteSubDirectories_def issue_def download_loop.simps priv_downloadFile_def
  copy_and_verify_def chmod_mode_def priv_sha256File_def

text \<open>
  Claim C4. The audit passes a new file \<open>sub/x.txt\<close> although the instance directory
  exists and is not writable; for a new file \<open>x.txt\<close> in the instance directory it
  fails. After the audit has passed, the update downloads the file and then fails,
  because neither the directory nor the file can be created.
\<close>

theorem audit_skips_instance_root:
  "priv_checkFilePermissions (ex_env ex_hash ex_new_server []) ex_ro_world ''/opt/i''
     [(''sub/x.txt'', NEW)]
   \<and> os_exists (ex_env ex_hash ex_new_server []) ex_ro_world ''/opt/i''
   \<and> \<not> os_access_w (ex_env ex_hash ex_new_server []) ex_ro_world ''/opt/i''
   \<and> \<not> priv_checkFilePermissions (ex_env ex_hash ex_new_server []) ex_ro_world ''/opt/i''
         [(''x.txt'', NEW)]
   \<and> updateInstance (ex_env ex_hash ex_new_server []) 110 110 ex_new_updater (ex_sys ex_ro_world)
     = (Returned False, ex_new_updater,
        \<lparr>world = ex_ro_world,
         fs_log = [Mkdir ''/opt/i/sub'', WriteFile ''/opt/i/sub/x.txt'' ''X''],
         dl_log = [''https://r/srv/sub/x.txt'']\<rparr>,
        [(''sub/x.txt'', \<lparr>data = ''X'', pos = 0, closed = False\<rparr>)])"
  by (simp add: update_simps ex_ro_world_def ex_new_updater_def ex_new_server_def ex_simps tf_simps)

section \<open>Properties of the update coordinator\<close>

lemma download_loop_frame:
  "download_loop e u ctr loc fh s = (r, s') \<Longrightarrow> world s' = world s \<and> fs_log s' = fs_log s"
proof (induction e u ctr loc fh s arbitrary: r s' rule: download_loop.induct)
  case (1 e u redirect_ctr file_location fileHandle s)
  from "1.prems" show ?case
    by (subst (asm) download_loop.simps)
       (auto split: if_splits option.splits dest!: "1.IH")
qed

lemma downloadFile_frame:
  assumes "priv_downloadFile e u loc h s = (r, s')"
  shows "world s' = world s \<and> fs_log s' = fs_log s"
proof -
  obtain r1 s1 where loop: "download_loop e u 0 loc tf_new s = (r1, s1)"
    by (cases "download_loop e u 0 loc tf_new s")
  from assms have "s' = s \<or> s' = s1"
    unfolding priv_downloadFile_def loop
    by (cases r1) (auto split: if_splits)
  with download_loop_frame [OF loop] show ?thesis by auto
qed

lemma download_all_frame:
  "download_all e u p hs s = (r, hs', s') \<Longrightarrow> world s' = world s \<and> fs_log s' = fs_log s"
proof (induction p arbitrary: hs s)
  case Nil
  then show ?case by simp
next
  case (Cons x p)
  obtain k a where x: "x = (k, a)" by (cases x)
  show ?case
  proof (cases "a = NEW \<or> a = MODIFY")
    case False
    with Cons x show ?thesis by auto
  next
    case True
    show ?thesis
    proof (cases "newestFiles u")
      case None
      with Cons.prems x True show ?thesis by auto
    next
      case (Some files)
      show ?thesis
      proof (cases "dict_get files k")
        case None
        with Cons.prems x True Some show ?thesis by auto
      next
        case h: (Some file_hash)
        obtain r1 s1 where d: "priv_downloadFile e u k file_hash s = (r1, s1)"
          by (cases "priv_downloadFile e u k file_hash s")
        note fr = downloadFile_frame [OF d]
        from Cons.prems x True Some h d fr Cons.IH show ?thesis
          by (cases r1) auto
      qed
    qed
  qed
qed

lemma download_all_append:
  "download_all e u (xs @ ys) hs s =
     (case download_all e u xs hs s of
        (Returned True, hs', s') \<Rightarrow> download_all e u ys hs' s'
      | r \<Rightarrow> r)"
proof (induction xs arbitrary: hs s)
  case Nil
  then show ?case by simp
next
  case (Cons x xs)
  obtain k a where x: "x = (k, a)" by (cases x)
  show ?case
    by (simp add: x Cons.IH split: option.splits prod.splits dl_result.splits)
qed

lemma download_all_keys:
  "download_all e u p hs s = (Returned True, hs', s') \<Longrightarrow>
   set (dict_keys hs') = set (dict_keys hs) \<union> {k. \<exists>a. (k, a) \<in> set p \<and> a \<noteq> DELETE}"
proof (induction p arbitrary: hs s)
  case Nil
  then show ?case by simp
next
  case (Cons x p)
  obtain k a where x: "x = (k, a)" by (cases x)
  show ?case
  proof (cases "a = NEW \<or> a = MODIFY")
    case False
    then have "a = DELETE" by (cases a) auto
    with Cons x show ?thesis by auto
  next
    case True
    with Cons.prems x obtain files file_hash fh s1 where
      "newestFiles u = Some files" "dict_get files k = Some file_hash"
      and d: "priv_downloadFile e u k file_hash s = (DlHandle fh, s1)"
      and rest: "download_all e u p (dict_set hs k fh) s1 = (Returned True, hs', s')"
      by (auto split: option.splits prod.splits dl_result.splits)
    from Cons.IH [OF rest] True x show ?thesis
      by (auto simp: dict_keys_dict_set)
  qed
qed

text \<open>
  When the downloads of the entries before \<open>(k, a)\<close> have succeeded and the download
  of the new or modified file \<open>k\<close> returns \<open>None\<close>, \<open>updateInstance\<close> returns \<open>False\<close>;
  the file system is the one it started with and no change has been issued to it; and
  the handles it holds, one for each new or modified file before \<open>k\<close>, are all closed.
\<close>

lemma failed_download_returns_false:
  assumes plan: "priv_checkFilesToUpdate e t t' (world s) u = (Returned (Some p), u1)"
    and split: "p = pre @ (k, a) # post"
    and a: "a = NEW \<or> a = MODIFY"
    and audit: "priv_checkFilePermissions e (world s) (instanceLocation u1) p"
    and pre: "download_all e u1 pre [] s = (Returned True, hs, s0)"
    and h: "newestFiles u1 = Some files" "dict_get files k = Some h"
    and fail: "priv_downloadFile e u1 k h s0 = (DlNone err, s1)"
  shows "updateInstance e t t' u s
           = (Returned False, u1, s1, map (\<lambda>(k, fh). (k, tf_close fh)) hs)
       \<and> world s1 = world s \<and> fs_log s1 = fs_log s
       \<and> set (dict_keys hs) = {k. \<exists>a. (k, a) \<in> set pre \<and> a \<noteq> DELETE}
       \<and> list_all (\<lambda>(k, fh). closed fh) (map (\<lambda>(k, fh). (k, tf_close fh)) hs)"
proof -
  have d: "download_all e u1 p [] s
             = (Returned False, map (\<lambda>(k, fh). (k, tf_close fh)) hs, s1)"
    unfolding split download_all_append pre
    using a h fail by auto
  have upd: "updateInstance e t t' u s
               = (Returned False, u1, s1, map (\<lambda>(k, fh). (k, tf_close fh)) hs)"
    unfolding updateInstance_def plan
    using audit d split by simp
  have fr: "world s1 = world s \<and> fs_log s1 = fs_log s"
    using download_all_frame [OF d] .
  have keys: "set (dict_keys hs) = {k. \<exists>a. (k, a) \<in> set pre \<and> a \<noteq> DELETE}"
    using download_all_keys [OF pre] by (simp add: dict_keys_def)
  have cl: "list_all (\<lambda>(k, fh). closed fh) (map (\<lambda>(k, fh). (k, tf_close fh)) hs)"
    by (induction hs) (auto simp: tf_close_def)
  from upd fr keys cl show ?thesis by simp
qed

lemma scan_remote_same:
  "\<forall>k \<in> set ks. os_exists e w (py_join loc k)
      \<and> (\<exists>c. os_read e w (py_join loc k) = Some c \<and> dict_get files k = Some (JStr (sha256 e c)))
   \<Longrightarrow> scan_remote e w loc files ks acc = Some acc"
  by (induction ks arbitrary: acc) auto

lemma scan_local_same:
  "set ks \<subseteq> set fl \<Longrightarrow> scan_local fl ks acc = acc"
  by (induction ks arbitrary: acc) auto

text \<open>
  Claim C10. When the plan that \<open>_checkFilesToUpdate\<close> returns is empty, \<open>updateInstance\<close>
  returns \<open>True\<close> and leaves everything outside the updater as it was: the file system,
  the list of changes issued to it and the list of content downloads; it holds no
  download handle. And the plan is empty when every remote file exists on disk with the
  remote digest and every file of the local record is in the remote map.
\<close>

theorem empty_plan_no_effect:
  assumes "priv_checkFilesToUpdate e t t' (world s) u = (Returned (Some p), u1)"
  shows "(p = [] \<longrightarrow> updateInstance e t t' u s = (Returned True, u1, s, []))
       \<and> ((\<exists>files li lf.
              newestFiles u1 = Some files \<and> localInstanceInfo u1 = JDict li
            \<and> dict_get li ''files'' = Some (JDict lf)
            \<and> (\<forall>k \<in> set (dict_keys files).
                  os_exists e (world s) (py_join (instanceLocation u1) k)
                  \<and> (\<exists>c. os_read e (world s) (py_join (instanceLocation u1) k) = Some c
                          \<and> dict_get files k = Some (JStr (sha256 e c))))
            \<and> set (dict_keys lf) \<subseteq> set (dict_keys files))
           \<longrightarrow> p = [])"
proof -
  have first: "p = [] \<longrightarrow> updateInstance e t t' u s = (Returned True, u1, s, [])"
    by (simp add: updateInstance_def assms)
  have second: "p = []"
    if c: "\<exists>files li lf.
              newestFiles u1 = Some files \<and> localInstanceInfo u1 = JDict li
            \<and> dict_get li ''files'' = Some (JDict lf)
            \<and> (\<forall>k \<in> set (dict_keys files).
                  os_exists e (world s) (py_join (instanceLocation u1) k)
                  \<and> (\<exists>c. os_read e (world s) (py_join (instanceLocation u1) k) = Some c
                          \<and> dict_get files k = Some (JStr (sha256 e c))))
            \<and> set (dict_keys lf) \<subseteq> set (dict_keys files)"
  proof -
    from checkFiles_result [OF assms] obtain files li lf p1 where
      nf: "newestFiles u1 = Some files"
      and sr: "scan_remote e (world s) (instanceLocation u1) files (dict_keys files) [] = Some p1"
      and li: "localInstanceInfo u1 = JDict li" "dict_get li ''files'' = Some (JDict lf)"
      and p: "p = scan_local (dict_keys files) (dict_keys lf) p1"
      by blast
    from c nf li have
      all: "\<forall>k \<in> set (dict_keys files).
                  os_exists e (world s) (py_join (instanceLocation u1) k)
                  \<and> (\<exists>c. os_read e (world s) (py_join (instanceLocation u1) k) = Some c
                          \<and> dict_get files k = Some (JStr (sha256 e c)))"
      and sub: "set (dict_keys lf) \<subseteq> set (dict_keys files)"
      by auto
    from scan_remote_same [OF all, of "[]"] sr have "p1 = []" by simp
    with p scan_local_same [OF sub] show ?thesis by simp
  qed
  from first second show ?thesis by blast
qed

lemma failed_download_returns_false_example:
  "updateInstance (ex_env ex_hash [(''https://r/srv/a'', ''A'')] []) 110 110 ex_two_updater
     (ex_sys ex_empty_world)
     = (Returned False, ex_two_updater,
        \<lparr>world = ex_empty_world, fs_log = [],
         dl_log = [''https://r/srv/a'', ''https://r/srv/b'']\<rparr>,
        [(''a'', \<lparr>data = ''A'', pos = 0, closed = True\<rparr>)])"
proof -
  let ?e = "ex_env ex_hash [(''https://r/srv/a'', ''A'')] []"
  let ?s0 = "\<lparr>world = ex_empty_world, fs_log = [], dl_log = [''https://r/srv/a'']\<rparr>"
  let ?s1 = "\<lparr>world = ex_empty_world, fs_log = [],
              dl_log = [''https://r/srv/a'', ''https://r/srv/b'']\<rparr>"
  have plan: "priv_checkFilesToUpdate ?e 110 110 (world (ex_sys ex_empty_world)) ex_two_updater
                = (Returned (Some [(''a'', NEW), (''b'', NEW)]), ex_two_updater)"
    by (simp add: priv_checkFilesToUpdate_def ex_two_updater_def ex_empty_world_def ex_simps)
  have split: "[(''a'', NEW), (''b'', NEW)] = [(''a'', NEW)] @ (''b'', NEW) # []"
    by simp
  have audit: "priv_checkFilePermissions ?e (world (ex_sys ex_empty_world))
                 (instanceLocation ex_two_updater) [(''a'', NEW), (''b'', NEW)]"
    by (simp add: ex_two_updater_def ex_empty_world_def ex_simps)
  have pre: "download_all ?e ex_two_updater [(''a'', NEW)] [] (ex_sys ex_empty_world)
               = (Returned True, [(''a'', \<lparr>data = ''A'', pos = 0, closed = False\<rparr>)], ?s0)"
    by (simp add: update_simps ex_two_updater_def ex_simps tf_simps)
  have h: "newestFiles ex_two_updater
             = Some [(''a'', JStr (ex_hash ''A'')), (''b'', JStr (ex_hash ''B''))]"
    "dict_get [(''a'', JStr (ex_hash ''A'')), (''b'', JStr (ex_hash ''B''))] ''b''
       = Some (JStr (ex_hash ''B''))"
    by (simp_all add: ex_two_updater_def ex_updater_def dict_get_def)
  have fail: "priv_downloadFile ?e ex_two_updater ''b'' (JStr (ex_hash ''B'')) ?s0
                = (DlNone TransportFailed, ?s1)"
    by (simp add: update_simps ex_two_updater_def ex_simps tf_simps)
  show ?thesis
    using failed_download_returns_false [OF plan split _ audit pre h fail]
    by (simp add: tf_close_def)
qed

text \<open>
  Claim C9. The download of \<open>a\<close> succeeds, the download of the marker \<open>b\<close> fails: its
  pointer file cannot be decoded, and the decoding stands outside the \<open>try\<close> of
  \<open>_downloadFile\<close>. \<open>updateInstance\<close> does not return \<open>False\<close>, the exception leaves it;
  nothing has been changed in the file system, but the handle of \<open>a\<close> is still open.
\<close>

theorem failed_download_raises:
  "priv_downloadFile (ex_env ex_hash ex_raise_server []) ex_raise_updater ''b''
     (JStr (ex_hash ''B''))
     \<lparr>world = ex_empty_world, fs_log = [], dl_log = [''https://r/srv/a'']\<rparr>
   = (DlRaised,
      \<lparr>world = ex_empty_world, fs_log = [],
       dl_log = [''https://r/srv/a'', ''https://r/srv/b'']\<rparr>)
   \<and> updateInstance (ex_env ex_hash ex_raise_server []) 110 110 ex_raise_updater
       (ex_sys ex_empty_world)
     = (Raised, ex_raise_updater,
        \<lparr>world = ex_empty_world, fs_log = [],
         dl_log = [''https://r/srv/a'', ''https://r/srv/b'']\<rparr>,
        [(''a'', \<lparr>data = ''A'', pos = 0, closed = False\<rparr>)])"
  by (simp add: update_simps Let_def ex_raise_server_def ex_raise_updater_def ex_empty_world_def
        ex_simps tf_simps)

theorem empty_plan_no_effect_witness:
  "priv_checkFilesToUpdate (ex_env ex_hash [] []) 110 110 (world (ex_sys ex_uptodate_world))
     ex_uptodate_updater = (Returned (Some []), ex_uptodate_updater)
   \<and> updateInstance (ex_env ex_hash [] []) 110 110 ex_uptodate_updater (ex_sys ex_uptodate_world)
     = (Returned True, ex_uptodate_updater, ex_sys ex_uptodate_world, [])"
proof -
  have plan: "priv_checkFilesToUpdate (ex_env ex_hash [] []) 110 110
                (world (ex_sys ex_uptodate_world)) ex_uptodate_updater
                = (Returned (Some []), ex_uptodate_updater)"
    by (simp add: priv_checkFilesToUpdate_def ex_uptodate_updater_def ex_uptodate_world_def ex_simps)
  show ?thesis
    using plan empty_plan_no_effect [OF plan] by simp
qed

section \<open>Properties of the apply phase\<close>

lemma issue_log: "issue e op s = (ok, s') \<Longrightarrow> fs_log s' = fs_log s @ [op]"
  by (auto simp: issue_def split: prod.splits)

lemma create_dirs_log:
  "create_dirs e target tempPart ds s = (ok, s') \<Longrightarrow>
   \<exists>ops. fs_log s' = fs_log s @ ops \<and> list_all (\<lambda>op. \<not> is_delete op) ops"
proof (induction ds arbitrary: tempPart s)
  case Nil
  then show ?case by simp
next
  case (Cons d ds)
  show ?case
  proof (cases "os_exists e (world s) (py_join3 target tempPart d)")
    case True
    with Cons show ?thesis by (auto split: if_splits)
  next
    case False
    obtain ok1 s1 where i: "issue e (Mkdir (py_join3 target tempPart d)) s = (ok1, s1)"
      by (cases "issue e (Mkdir (py_join3 target tempPart d)) s")
    note l = issue_log [OF i]
    show ?thesis
    proof (cases ok1)
      case False
      with Cons.prems \<open>\<not> os_exists e (world s) (py_join3 target tempPart d)\<close> i l
      show ?thesis by auto
    next
      case True
      with Cons.prems \<open>\<not> os_exists e (world s) (py_join3 target tempPart d)\<close> i
      have "create_dirs e target (py_join tempPart d) ds s1 = (ok, s')" by simp
      from Cons.IH [OF this] l show ?thesis by auto
    qed
  qed
qed

lemma createSubDirectories_log:
  "priv_createSubDirectories e k target s = (ok, s') \<Longrightarrow>
   \<exists>ops. fs_log s' = fs_log s @ ops \<and> list_all (\<lambda>op. \<not> is_delete op) ops"
  by (auto simp: priv_createSubDirectories_def Let_def split: if_splits dest: create_dirs_log)

lemma delete_dirs_log:
  "delete_dirs e target ds s = (ok, s') \<Longrightarrow>
   \<exists>ops. fs_log s' = fs_log s @ ops \<and> list_all is_delete ops"
proof (induction ds arbitrary: s)
  case Nil
  then show ?case by simp
next
  case (Cons d ds)
  let ?p = "py_join target (foldl py_join [] (rev (d # ds)))"
  show ?case
  proof (cases "os_listdir e (world s) ?p")
    case None
    with Cons.prems show ?thesis by (simp add: Let_def)
  next
    case (Some entries)
    show ?thesis
    proof (cases "entries \<noteq> []")
      case True
      with Cons.prems Some show ?thesis by (simp add: Let_def)
    next
      case False
      obtain ok1 s1 where i: "issue e (Rmdir ?p) s = (ok1, s1)"
        by (cases "issue e (Rmdir ?p) s")
      note l = issue_log [OF i]
      show ?thesis
      proof (cases ok1)
        case False
        with Cons.prems Some \<open>\<not> entries \<noteq> []\<close> i l show ?thesis by (auto simp: Let_def)
      next
        case True
        with Cons.prems Some \<open>\<not> entries \<noteq> []\<close> i
        have "delete_dirs e target ds s1 = (ok, s')" by (simp add: Let_def)
        from Cons.IH [OF this] l show ?thesis by auto
      qed
    qed
  qed
qed

lemma deleteSubDirectories_log:
  "priv_deleteSubDirectories e k target s = (ok, s') \<Longrightarrow>
   \<exists>ops. fs_log s' = fs_log s @ ops \<and> list_all is_delete ops"
  by (auto simp: priv_deleteSubDirectories_def dest: delete_dirs_log)

lemma copy_and_verify_not_True:
  "copy_and_verify e u hs k s = (Some r, s') \<Longrightarrow> r \<noteq> Returned True"
  by (auto simp: copy_and_verify_def Let_def
           split: option.splits if_splits prod.splits bool.splits)

lemma copy_and_verify_log:
  "copy_and_verify e u hs k s = (r, s') \<Longrightarrow>
   \<exists>ops. fs_log s' = fs_log s @ ops \<and> list_all (\<lambda>op. \<not> is_delete op) ops"
proof -
  assume c: "copy_and_verify e u hs k s = (r, s')"
  have snd_issue: "fs_log (snd (issue e op s0)) = fs_log s0 @ [op]" for op s0
    by (simp add: issue_def split_beta)
  from c show ?thesis
    by (auto simp: copy_and_verify_def Let_def snd_issue
             split: option.splits if_splits prod.splits bool.splits
             dest!: issue_log)
qed

lemma apply_files_append:
  "apply_files e u hs (xs @ ys) s =
     (case apply_files e u hs xs s of
        (Returned True, s1) \<Rightarrow> apply_files e u hs ys s1
      | r \<Rightarrow> r)"
proof (induction xs arbitrary: s)
  case Nil
  then show ?case by simp
next
  case (Cons x xs)
  obtain k a where x: "x = (k, a)" by (cases x)
  show ?case
  proof (cases "a = DELETE")
    case True
    then show ?thesis
      by (simp add: x Cons.IH split: prod.splits bool.splits)
  next
    case False
    let ?s0 = "if a = NEW then snd (priv_createSubDirectories e k (instanceLocation u) s) else s"
    obtain r s1 where c: "copy_and_verify e u hs k ?s0 = (r, s1)"
      by (cases "copy_and_verify e u hs k ?s0")
    show ?thesis
    proof (cases r)
      case None
      with False c show ?thesis by (simp add: x Cons.IH)
    next
      case (Some res)
      with c have "res \<noteq> Returned True"
        using copy_and_verify_not_True by blast
      with False c Some show ?thesis
        by (cases res) (auto simp: x split: bool.splits)
    qed
  qed
qed

lemma apply_writes_log:
  "list_all (\<lambda>(k, a). a \<noteq> DELETE) xs \<Longrightarrow> apply_files e u hs xs s = (r, s') \<Longrightarrow>
   \<exists>ops. fs_log s' = fs_log s @ ops \<and> list_all (\<lambda>op. \<not> is_delete op) ops"
proof (induction xs arbitrary: s)
  case Nil
  then show ?case by simp
next
  case (Cons x xs)
  obtain k a where x: "x = (k, a)" by (cases x)
  from Cons.prems(1) x have a: "a \<noteq> DELETE" and rest: "list_all (\<lambda>(k, a). a \<noteq> DELETE) xs"
    by auto
  let ?s0 = "if a = NEW then snd (priv_createSubDirectories e k (instanceLocation u) s) else s"
  have l0: "\<exists>ops. fs_log ?s0 = fs_log s @ ops \<and> list_all (\<lambda>op. \<not> is_delete op) ops"
    using createSubDirectories_log [of e k "instanceLocation u" s]
    by (cases "priv_createSubDirectories e k (instanceLocation u) s") auto
  obtain r1 s1 where c: "copy_and_verify e u hs k ?s0 = (r1, s1)"
    by (cases "copy_and_verify e u hs k ?s0")
  from copy_and_verify_log [OF c] l0
  have l1: "\<exists>ops. fs_log s1 = fs_log s @ ops \<and> list_all (\<lambda>op. \<not> is_delete op) ops"
    by auto
  show ?case
  proof (cases r1)
    case (Some res)
    with Cons.prems(2) x a c have "s' = s1" by simp
    with l1 show ?thesis by simp
  next
    case None
    with Cons.prems(2) x a c have "apply_files e u hs xs s1 = (r, s')" by simp
    from Cons.IH [OF rest this] l1 show ?thesis by auto
  qed
qed

lemma apply_deletes_log:
  "list_all (\<lambda>(k, a). a = DELETE) xs \<Longrightarrow> apply_files e u hs xs s = (r, s') \<Longrightarrow>
   \<exists>ops. fs_log s' = fs_log s @ ops \<and> list_all is_delete ops"
proof (induction xs arbitrary: s)
  case Nil
  then show ?case by simp
next
  case (Cons x xs)
  obtain k a where x: "x = (k, a)" by (cases x)
  from Cons.prems(1) x have a: "a = DELETE" and rest: "list_all (\<lambda>(k, a). a = DELETE) xs"
    by auto
  obtain ok1 s1 where i: "issue e (Remove (py_join (instanceLocation u) k)) s = (ok1, s1)"
    by (cases "issue e (Remove (py_join (instanceLocation u) k)) s")
  note l1 = issue_log [OF i]
  show ?case
  proof (cases ok1)
    case False
    with Cons.prems(2) x a i have "s' = s1" by simp
    with l1 show ?thesis by simp
  next
    case True
    let ?s2 = "snd (priv_deleteSubDirectories e k (instanceLocation u) s1)"
    have l2: "\<exists>ops. fs_log ?s2 = fs_log s1 @ ops \<and> list_all is_delete ops"
      using deleteSubDirectories_log [of e k "instanceLocation u" s1]
      by (cases "priv_deleteSubDirectories e k (instanceLocation u) s1") auto
    from True Cons.prems(2) x a i have "apply_files e u hs xs ?s2 = (r, s')" by simp
    from Cons.IH [OF rest this] l1 l2 show ?thesis by auto
  qed
qed

lemma dict_set_append:
  "k \<notin> set (dict_keys a) \<Longrightarrow> dict_set (a @ b) k v = a @ dict_set b k v"
  by (induction a) (auto simp: dict_keys_def)

lemma list_all_dict_set:
  "list_all P d \<Longrightarrow> P (k, v) \<Longrightarrow> list_all P (dict_set d k v)"
  by (induction d) auto

lemma scan_remote_writes:
  "scan_remote e w loc files ks acc = Some p \<Longrightarrow>
   list_all (\<lambda>(k, a). a \<noteq> DELETE \<and> k \<in> S) acc \<Longrightarrow> set ks \<subseteq> S \<Longrightarrow>
   list_all (\<lambda>(k, a). a \<noteq> DELETE \<and> k \<in> S) p"
proof (induction ks arbitrary: acc)
  case Nil
  then show ?case by simp
next
  case (Cons k ks)
  from Cons.prems(3) have k: "k \<in> S" and ks: "set ks \<subseteq> S" by auto
  have m: "list_all (\<lambda>(k, a). a \<noteq> DELETE \<and> k \<in> S) (dict_set acc k MODIFY)"
    using Cons.prems(2) k by (intro list_all_dict_set) auto
  have n: "list_all (\<lambda>(k, a). a \<noteq> DELETE \<and> k \<in> S) (dict_set acc k NEW)"
    using Cons.prems(2) k by (intro list_all_dict_set) auto
  from Cons.prems(1) Cons.IH [OF _ m ks] Cons.IH [OF _ n ks] Cons.IH [OF _ Cons.prems(2) ks]
  show ?case
    by (auto split: if_splits option.splits)
qed

lemma scan_local_split:
  "list_all (\<lambda>(k, a). a \<noteq> DELETE \<and> k \<in> set fl) nm \<Longrightarrow> list_all (\<lambda>(k, a). a = DELETE) dl \<Longrightarrow>
   \<exists>dl'. scan_local fl ks (nm @ dl) = nm @ dl' \<and> list_all (\<lambda>(k, a). a = DELETE) dl'"
proof (induction ks arbitrary: dl)
  case Nil
  then show ?case by simp
next
  case (Cons k ks)
  show ?case
  proof (cases "k \<in> set fl")
    case True
    with Cons show ?thesis by simp
  next
    case False
    with Cons.prems(1) have "k \<notin> set (dict_keys nm)"
      by (auto simp: dict_keys_def list_all_iff)
    then have eq: "dict_set (nm @ dl) k DELETE = nm @ dict_set dl k DELETE"
      by (rule dict_set_append)
    have "list_all (\<lambda>(k, a). a = DELETE) (dict_set dl k DELETE)"
      using Cons.prems(2) by (intro list_all_dict_set) auto
    from Cons.IH [OF Cons.prems(1) this] False eq show ?thesis by simp
  qed
qed

lemma plan_shape:
  assumes "priv_checkFilesToUpdate e t t' w u = (Returned (Some p), u1)"
  shows "\<exists>nm dl. p = nm @ dl \<and> list_all (\<lambda>(k, a). a \<noteq> DELETE) nm
                \<and> list_all (\<lambda>(k, a). a = DELETE) dl"
proof -
  from checkFiles_result [OF assms] obtain files li lf p1 where
    nf: "newestFiles u1 = Some files"
    and sr: "scan_remote e w (instanceLocation u1) files (dict_keys files) [] = Some p1"
    and li: "localInstanceInfo u1 = JDict li" "dict_get li ''files'' = Some (JDict lf)"
    and p: "p = scan_local (dict_keys files) (dict_keys lf) p1"
    by blast
  have nm: "list_all (\<lambda>(k, a). a \<noteq> DELETE \<and> k \<in> set (dict_keys files)) p1"
    using scan_remote_writes [OF sr, of "set (dict_keys files)"] by simp
  from scan_local_split [OF nm, of "[]" "dict_keys lf"] obtain dl where
    "scan_local (dict_keys files) (dict_keys lf) p1 = p1 @ dl"
    "list_all (\<lambda>(k, a). a = DELETE) dl"
    by auto
  moreover from nm have "list_all (\<lambda>(k, a). a \<noteq> DELETE) p1"
    by (auto simp: list_all_iff)
  ultimately show ?thesis
    using p by blast
qed

lemma written_append: "written (xs @ ys) = written xs @ written ys"
  by (induction xs rule: written.induct) auto

lemma written_Mkdirs: "written (map Mkdir ps) = []"
  by (induction ps) auto

lemma not_delete_Mkdirs: "list_all (\<lambda>op. \<not> is_delete op) (map Mkdir ps)"
  by (induction ps) auto

lemma create_dirs_mkdirs:
  "create_dirs e target tempPart ds s = (ok, s') \<Longrightarrow> \<exists>ps. fs_log s' = fs_log s @ map Mkdir ps"
proof (induction ds arbitrary: tempPart s)
  case Nil
  then show ?case by simp
next
  case (Cons d ds)
  show ?case
  proof (cases "os_exists e (world s) (py_join3 target tempPart d)")
    case True
    with Cons show ?thesis by (auto split: if_splits)
  next
    case False
    obtain ok1 s1 where i: "issue e (Mkdir (py_join3 target tempPart d)) s = (ok1, s1)"
      by (cases "issue e (Mkdir (py_join3 target tempPart d)) s")
    from issue_log [OF i]
    have l: "fs_log s1 = fs_log s @ map Mkdir [py_join3 target tempPart d]" by simp
    show ?thesis
    proof (cases ok1)
      case False
      with Cons.prems \<open>\<not> os_exists e (world s) (py_join3 target tempPart d)\<close> i
      have "s' = s1" by simp
      with l show ?thesis by blast
    next
      case True
      with Cons.prems \<open>\<not> os_exists e (world s) (py_join3 target tempPart d)\<close> i
      have "create_dirs e target (py_join tempPart d) ds s1 = (ok, s')" by simp
      from Cons.IH [OF this] obtain ps where "fs_log s' = fs_log s1 @ map Mkdir ps" by blast
      with l have "fs_log s' = fs_log s @ map Mkdir (py_join3 target tempPart d # ps)" by simp
      then show ?thesis by blast
    qed
  qed
qed

lemma createSubDirectories_mkdirs:
  "\<exists>ps. fs_log (snd (priv_createSubDirectories e k target s)) = fs_log s @ map Mkdir ps"
proof (cases "length (split_slash k) \<noteq> 1")
  case True
  obtain ok s' where c: "create_dirs e target [] (butlast (split_slash k)) s = (ok, s')"
    by (cases "create_dirs e target [] (butlast (split_slash k)) s")
  from create_dirs_mkdirs [OF c] c True show ?thesis
    by (simp add: priv_createSubDirectories_def)
next
  case False
  then have "fs_log (snd (priv_createSubDirectories e k target s)) = fs_log s @ map Mkdir []"
    by (simp add: priv_createSubDirectories_def)
  then show ?thesis by blast
qed

lemma copy_and_verify_continues:
  assumes "copy_and_verify e u hs k s = (None, s')"
  shows "\<exists>ops. fs_log s' = fs_log s @ ops \<and> list_all (\<lambda>op. \<not> is_delete op) ops
             \<and> written ops = [py_join (instanceLocation u) k]"
proof -
  have snd_issue: "fs_log (snd (issue e op s0)) = fs_log s0 @ [op]" for op s0
    by (simp add: issue_def split_beta)
  from assms show ?thesis
    by (auto simp: copy_and_verify_def Let_def snd_issue
             split: option.splits if_splits prod.splits bool.splits
             dest!: issue_log)
qed

lemma removed_append: "removed (xs @ ys) = removed xs @ removed ys"
  by (induction xs rule: removed.induct) auto

lemma removed_Rmdirs: "removed (map Rmdir ps) = []"
  by (induction ps) auto

lemma is_delete_Rmdirs: "list_all is_delete (map Rmdir ps)"
  by (induction ps) auto

lemma apply_writes_written:
  "list_all (\<lambda>(k, a). a \<noteq> DELETE) xs \<Longrightarrow> apply_files e u hs xs s = (Returned True, s') \<Longrightarrow>
   \<exists>ws. fs_log s' = fs_log s @ ws \<and> list_all (\<lambda>op. \<not> is_delete op) ws
        \<and> written ws = map (\<lambda>(k, a). py_join (instanceLocation u) k) xs"
proof (induction xs arbitrary: s)
  case Nil
  then show ?case by simp
next
  case (Cons x xs)
  obtain k a where x: "x = (k, a)" by (cases x)
  from Cons.prems(1) x have a: "a \<noteq> DELETE" and rest: "list_all (\<lambda>(k, a). a \<noteq> DELETE) xs"
    by auto
  let ?s0 = "if a = NEW then snd (priv_createSubDirectories e k (instanceLocation u) s) else s"
  have "\<exists>ps. fs_log ?s0 = fs_log s @ map Mkdir ps"
  proof (cases "a = NEW")
    case True
    then show ?thesis using createSubDirectories_mkdirs [of e k "instanceLocation u" s] by simp
  next
    case False
    then have "fs_log ?s0 = fs_log s @ map Mkdir []" by simp
    then show ?thesis by blast
  qed
  then obtain ps where l0: "fs_log ?s0 = fs_log s @ map Mkdir ps" by blast
  obtain r1 s1 where c: "copy_and_verify e u hs k ?s0 = (r1, s1)"
    by (cases "copy_and_verify e u hs k ?s0")
  have r1: "r1 = None"
  proof (cases r1)
    case None
    then show ?thesis .
  next
    case (Some res)
    with Cons.prems(2) x a c have "res = Returned True" by simp
    with c Some copy_and_verify_not_True show ?thesis by blast
  qed
  from copy_and_verify_continues [OF c [unfolded r1]] obtain ops where
    l1: "fs_log s1 = fs_log ?s0 @ ops" "list_all (\<lambda>op. \<not> is_delete op) ops"
      "written ops = [py_join (instanceLocation u) k]"
    by blast
  from Cons.prems(2) x a c r1 have "apply_files e u hs xs s1 = (Returned True, s')" by simp
  from Cons.IH [OF rest this] obtain ws where
    l2: "fs_log s' = fs_log s1 @ ws" "list_all (\<lambda>op. \<not> is_delete op) ws"
      "written ws = map (\<lambda>(k, a). py_join (instanceLocation u) k) xs"
    by blast
  have "fs_log s' = fs_log s @ (map Mkdir ps @ ops @ ws)"
    using l0 l1(1) l2(1) by simp
  moreover have "list_all (\<lambda>op. \<not> is_delete op) (map Mkdir ps @ ops @ ws)"
    using l1(2) l2(2) not_delete_Mkdirs [of ps] by simp
  moreover have "written (map Mkdir ps @ ops @ ws)
                   = map (\<lambda>(k, a). py_join (instanceLocation u) k) (x # xs)"
    using l1(3) l2(3) by (simp add: written_append written_Mkdirs x)
  ultimately show ?case by blast
qed

lemma delete_dirs_prune:
  "snd (delete_dirs e target rs s) = prune_empty e target (dirs_upward rs) s"
proof (induction rs arbitrary: s)
  case Nil
  then show ?case by simp
next
  case (Cons d ds)
  show ?case
    by (auto simp: Let_def Cons.IH split: option.splits list.splits prod.splits bool.splits)
qed

lemma apply_deletes_spec:
  "list_all (\<lambda>(k, a). a = DELETE) dl \<Longrightarrow>
   apply_files e u hs dl s = delete_entries e (instanceLocation u) (map fst dl) s"
proof (induction dl arbitrary: s)
  case Nil
  then show ?case by simp
next
  case (Cons x dl)
  obtain k a where x: "x = (k, a)" by (cases x)
  from Cons.prems x have a: "a = DELETE" and rest: "list_all (\<lambda>(k, a). a = DELETE) dl"
    by auto
  show ?case
    by (simp add: x a Cons.IH [OF rest] priv_deleteSubDirectories_def delete_dirs_prune
          ancestor_dirs_def split: prod.splits bool.splits)
qed

lemma prune_empty_log:
  "\<exists>ps. fs_log (prune_empty e target ds s) = fs_log s @ map Rmdir ps"
proof (induction ds arbitrary: s)
  case Nil
  have "fs_log (prune_empty e target [] s) = fs_log s @ map Rmdir []" by simp
  then show ?case by blast
next
  case (Cons d ds)
  have "fs_log s = fs_log s @ map Rmdir []" by simp
  then have keep: "\<exists>ps. fs_log s = fs_log s @ map Rmdir ps" by blast
  show ?case
  proof (cases "os_listdir e (world s) (py_join target d) = Some []")
    case False
    then have "prune_empty e target (d # ds) s = s"
      by (auto split: option.splits list.splits)
    with keep show ?thesis by simp
  next
    case True
    obtain ok1 s1 where i: "issue e (Rmdir (py_join target d)) s = (ok1, s1)"
      by (cases "issue e (Rmdir (py_join target d)) s")
    from issue_log [OF i] have l: "fs_log s1 = fs_log s @ map Rmdir [py_join target d]" by simp
    show ?thesis
    proof (cases ok1)
      case False
      with True i have "prune_empty e target (d # ds) s = s1" by simp
      with l show ?thesis by metis
    next
      case ok: True
      with True i have eq: "prune_empty e target (d # ds) s = prune_empty e target ds s1" by simp
      from Cons.IH [of s1] obtain ps where "fs_log (prune_empty e target ds s1) = fs_log s1 @ map Rmdir ps"
        by blast
      with l eq have "fs_log (prune_empty e target (d # ds) s)
                        = fs_log s @ map Rmdir (py_join target d # ps)" by simp
      then show ?thesis by blast
    qed
  qed
qed

lemma delete_entries_log:
  "delete_entries e target ks s = (r, s') \<Longrightarrow>
   \<exists>ds. fs_log s' = fs_log s @ ds \<and> list_all is_delete ds
        \<and> (r = Returned True \<longrightarrow> removed ds = map (py_join target) ks)"
proof (induction ks arbitrary: s)
  case Nil
  then show ?case by simp
next
  case (Cons k ks)
  obtain ok1 s1 where i: "issue e (Remove (py_join target k)) s = (ok1, s1)"
    by (cases "issue e (Remove (py_join target k)) s")
  note l1 = issue_log [OF i]
  show ?case
  proof (cases ok1)
    case False
    with Cons.prems i have "s' = s1" "r = Returned False" by simp_all
    with l1 show ?thesis by simp
  next
    case True
    let ?s2 = "prune_empty e target (ancestor_dirs k) s1"
    from prune_empty_log [of e target "ancestor_dirs k" s1] obtain ps where
      l2: "fs_log ?s2 = fs_log s1 @ map Rmdir ps" by blast
    from True Cons.prems i have "delete_entries e target ks ?s2 = (r, s')" by simp
    from Cons.IH [OF this] obtain ds where
      l3: "fs_log s' = fs_log ?s2 @ ds" "list_all is_delete ds"
        "r = Returned True \<longrightarrow> removed ds = map (py_join target) ks"
      by blast
    have "fs_log s' = fs_log s @ (Remove (py_join target k) # map Rmdir ps @ ds)"
      using l1 l2 l3(1) by simp
    moreover have "list_all is_delete (Remove (py_join target k) # map Rmdir ps @ ds)"
      using l3(2) is_delete_Rmdirs [of ps] by simp
    moreover have "r = Returned True \<longrightarrow>
        removed (Remove (py_join target k) # map Rmdir ps @ ds) = map (py_join target) (k # ks)"
      using l3(3) by (simp add: removed_append removed_Rmdirs)
    ultimately show ?thesis by blast
  qed
qed

lemma plan_split_filters:
  assumes "p = nm @ dl" "list_all (\<lambda>(k, a). a \<noteq> DELETE) nm" "list_all (\<lambda>(k, a). a = DELETE) dl"
  shows "writes_of p = nm \<and> deletes_of p = dl"
proof -
  have "filter (\<lambda>(k, a). a \<noteq> DELETE) nm = nm" "filter (\<lambda>(k, a). a = DELETE) nm = []"
    using assms(2) by (induction nm) auto
  moreover have "filter (\<lambda>(k, a). a \<noteq> DELETE) dl = []" "filter (\<lambda>(k, a). a = DELETE) dl = dl"
    using assms(3) by (induction dl) auto
  ultimately show ?thesis
    by (simp add: writes_of_def deletes_of_def assms(1))
qed

text \<open>
  Claim C5, as amended. In a plan of \<open>_checkFilesToUpdate\<close> every new and modified file
  comes before every file to delete, and the apply phase processes the plan in this
  order: first the new and modified files, whose writes are issued in plan order and
  with no deletion among them; then, only when all of them have succeeded, the files
  to delete in plan order, each by removing the file and, when that has succeeded,
  pruning its empty ancestor directories from the immediate parent upward. When the
  apply phase succeeds, its changes are the writes of all new and modified files
  followed by the removals of all files to delete.
\<close>

theorem apply_in_plan_order:
  assumes plan: "priv_checkFilesToUpdate e t t' w u = (Returned (Some p), u1)"
  shows "p = writes_of p @ deletes_of p
       \<and> apply_files e' u' hs p s
           = (case apply_files e' u' hs (writes_of p) s of
                (Returned True, s1) \<Rightarrow>
                  delete_entries e' (instanceLocation u') (map fst (deletes_of p)) s1
              | r \<Rightarrow> r)
       \<and> (\<exists>ws. fs_log (snd (apply_files e' u' hs (writes_of p) s)) = fs_log s @ ws
                \<and> list_all (\<lambda>op. \<not> is_delete op) ws
                \<and> (fst (apply_files e' u' hs (writes_of p) s) = Returned True \<longrightarrow>
                     written ws = map (\<lambda>(k, a). py_join (instanceLocation u') k) (writes_of p)))
       \<and> (fst (apply_files e' u' hs p s) = Returned True \<longrightarrow>
            (\<exists>ws ds. fs_log (snd (apply_files e' u' hs p s)) = fs_log s @ ws @ ds
                \<and> list_all (\<lambda>op. \<not> is_delete op) ws \<and> list_all is_delete ds
                \<and> written ws = map (\<lambda>(k, a). py_join (instanceLocation u') k) (writes_of p)
                \<and> removed ds = map (\<lambda>(k, a). py_join (instanceLocation u') k) (deletes_of p)))"
proof -
  from plan_shape [OF plan] obtain nm dl where
    p: "p = nm @ dl" and nm: "list_all (\<lambda>(k, a). a \<noteq> DELETE) nm"
    and dl: "list_all (\<lambda>(k, a). a = DELETE) dl"
    by blast
  from plan_split_filters [OF p nm dl] have wd: "writes_of p = nm" "deletes_of p = dl"
    by simp_all
  obtain r1 s1 where first: "apply_files e' u' hs nm s = (r1, s1)"
    by (cases "apply_files e' u' hs nm s")
  have split: "p = writes_of p @ deletes_of p"
    using p wd by simp
  have order: "apply_files e' u' hs p s
           = (case apply_files e' u' hs (writes_of p) s of
                (Returned True, s1) \<Rightarrow>
                  delete_entries e' (instanceLocation u') (map fst (deletes_of p)) s1
              | r \<Rightarrow> r)"
    unfolding wd
    by (simp add: p apply_files_append apply_deletes_spec [OF dl]
             split: prod.splits outcome.splits bool.splits)
  from apply_writes_log [OF nm first] obtain ws0 where
    ws0: "fs_log s1 = fs_log s @ ws0" "list_all (\<lambda>op. \<not> is_delete op) ws0"
    by blast
  have writes: "\<exists>ws. fs_log (snd (apply_files e' u' hs (writes_of p) s)) = fs_log s @ ws
                \<and> list_all (\<lambda>op. \<not> is_delete op) ws
                \<and> (fst (apply_files e' u' hs (writes_of p) s) = Returned True \<longrightarrow>
                     written ws = map (\<lambda>(k, a). py_join (instanceLocation u') k) (writes_of p))"
  proof (cases "r1 = Returned True")
    case True
    with apply_writes_written [OF nm] first show ?thesis
      unfolding wd by simp
  next
    case False
    with ws0 first show ?thesis
      unfolding wd by auto
  qed
  have all: "\<exists>ws ds. fs_log (snd (apply_files e' u' hs p s)) = fs_log s @ ws @ ds
                \<and> list_all (\<lambda>op. \<not> is_delete op) ws \<and> list_all is_delete ds
                \<and> written ws = map (\<lambda>(k, a). py_join (instanceLocation u') k) (writes_of p)
                \<and> removed ds = map (\<lambda>(k, a). py_join (instanceLocation u') k) (deletes_of p)"
    if ok: "fst (apply_files e' u' hs p s) = Returned True"
  proof -
    obtain s' where run: "apply_files e' u' hs p s = (Returned True, s')"
      using ok by (cases "apply_files e' u' hs p s") auto
    have r1: "r1 = Returned True"
    proof (rule ccontr)
      assume "r1 \<noteq> Returned True"
      with run first have "r1 = Returned True"
        by (cases r1) (auto simp: p apply_files_append split: bool.splits)
      with \<open>r1 \<noteq> Returned True\<close> show False by simp
    qed
    with run first have del: "delete_entries e' (instanceLocation u') (map fst dl) s1
                                = (Returned True, s')"
      by (simp add: p apply_files_append apply_deletes_spec [OF dl])
    from apply_writes_written [OF nm first [unfolded r1]] obtain ws where
      ws: "fs_log s1 = fs_log s @ ws" "list_all (\<lambda>op. \<not> is_delete op) ws"
        "written ws = map (\<lambda>(k, a). py_join (instanceLocation u') k) nm"
      by blast
    from delete_entries_log [OF del] obtain ds where
      ds: "fs_log s' = fs_log s1 @ ds" "list_all is_delete ds"
        "removed ds = map (py_join (instanceLocation u')) (map fst dl)"
      by blast
    have "map (py_join (instanceLocation u')) (map fst dl)
            = map (\<lambda>(k, a). py_join (instanceLocation u') k) dl"
      by (simp add: case_prod_beta)
    with ds(3) have rm: "removed ds = map (\<lambda>(k, a). py_join (instanceLocation u') k) dl"
      by simp
    have log: "fs_log (snd (apply_files e' u' hs p s)) = fs_log s @ ws @ ds"
      using run ws(1) ds(1) by simp
    from log ws(2,3) ds(2) rm show ?thesis
      unfolding wd by blast
  qed
  from split order writes all show ?thesis
    by blast
qed

lemma ancestor_dirs_example: "ancestor_dirs ''a/b/c/file.txt'' = [''a/b/c'', ''a/b'', ''a'']"
  by (simp add: ancestor_dirs_def slash_def py_join_def)

theorem apply_in_plan_order_witness:
  "priv_checkFilesToUpdate (ex_env ex_hash [] []) 110 110 ex_nested_world ex_nested_updater
     = (Returned (Some [(''a'', NEW), (''x/y/d'', DELETE)]), ex_nested_updater)
   \<and> writes_of [(''a'', NEW), (''x/y/d'', DELETE)] = [(''a'', NEW)]
   \<and> deletes_of [(''a'', NEW), (''x/y/d'', DELETE)] = [(''x/y/d'', DELETE)]
   \<and> apply_files (ex_env ex_hash [] []) ex_nested_updater
        [(''a'', \<lparr>data = ''A'', pos = 0, closed = False\<rparr>)] [(''a'', NEW), (''x/y/d'', DELETE)]
        (ex_sys ex_nested_world)
     = (Returned True,
        \<lparr>world = \<lparr>sfs_files = [(''/opt/i/a'', ''A'')], sfs_dirs = [''/opt'', ''/opt/i''],
                   sfs_readonly = []\<rparr>,
         fs_log = [WriteFile ''/opt/i/a'' ''A'', Remove ''/opt/i/x/y/d'', Rmdir ''/opt/i/x/y'',
                   Rmdir ''/opt/i/x''],
         dl_log = []\<rparr>)"
proof -
  let ?e = "ex_env ex_hash [] []"
  let ?hs = "[(''a'', \<lparr>data = ''A'', pos = 0, closed = False\<rparr>)]"
  let ?mid = "\<lparr>world = \<lparr>sfs_files = [(''/opt/i/x/y/d'', ''old''), (''/opt/i/a'', ''A'')],
                         sfs_dirs = [''/opt'', ''/opt/i'', ''/opt/i/x'', ''/opt/i/x/y''],
                         sfs_readonly = []\<rparr>,
               fs_log = [WriteFile ''/opt/i/a'' ''A''], dl_log = []\<rparr>"
  have plan: "priv_checkFilesToUpdate ?e 110 110 ex_nested_world ex_nested_updater
     = (Returned (Some [(''a'', NEW), (''x/y/d'', DELETE)]), ex_nested_updater)"
    by (simp add: priv_checkFilesToUpdate_def ex_nested_updater_def ex_nested_world_def ex_simps)
  have wd: "writes_of [(''a'', NEW), (''x/y/d'', DELETE)] = [(''a'', NEW)]"
    "deletes_of [(''a'', NEW), (''x/y/d'', DELETE)] = [(''x/y/d'', DELETE)]"
    by (simp_all add: writes_of_def deletes_of_def)
  have loc: "instanceLocation ex_nested_updater = ''/opt/i''"
    by (simp add: ex_nested_updater_def ex_updater_def)
  have first: "apply_files ?e ex_nested_updater ?hs [(''a'', NEW)] (ex_sys ex_nested_world)
                 = (Returned True, ?mid)"
    by (simp add: update_simps Let_def ex_nested_updater_def ex_nested_world_def ex_simps)
  have second: "delete_entries ?e ''/opt/i'' [''x/y/d''] ?mid
     = (Returned True,
        \<lparr>world = \<lparr>sfs_files = [(''/opt/i/a'', ''A'')], sfs_dirs = [''/opt'', ''/opt/i''],
                   sfs_readonly = []\<rparr>,
         fs_log = [WriteFile ''/opt/i/a'' ''A'', Remove ''/opt/i/x/y/d'', Rmdir ''/opt/i/x/y'',
                   Rmdir ''/opt/i/x''],
         dl_log = []\<rparr>)"
    by (simp add: issue_def ancestor_dirs_def ex_simps)
  from apply_in_plan_order [OF plan, of ?e ex_nested_updater ?hs "ex_sys ex_nested_world"]
  have "apply_files ?e ex_nested_updater ?hs [(''a'', NEW), (''x/y/d'', DELETE)]
          (ex_sys ex_nested_world)
        = (case apply_files ?e ex_nested_updater ?hs
                  (writes_of [(''a'', NEW), (''x/y/d'', DELETE)]) (ex_sys ex_nested_world) of
             (Returned True, s1) \<Rightarrow>
               delete_entries ?e (instanceLocation ex_nested_updater)
                 (map fst (deletes_of [(''a'', NEW), (''x/y/d'', DELETE)])) s1
           | r \<Rightarrow> r)"
    by blast
  also have "\<dots> = delete_entries ?e ''/opt/i'' [''x/y/d''] ?mid"
    by (simp only: wd first loc prod.case outcome.case bool.case list.map fst_conv)
  finally have run: "apply_files ?e ex_nested_updater ?hs [(''a'', NEW), (''x/y/d'', DELETE)]
          (ex_sys ex_nested_world)
     = (Returned True,
        \<lparr>world = \<lparr>sfs_files = [(''/opt/i/a'', ''A'')], sfs_dirs = [''/opt'', ''/opt/i''],
                   sfs_readonly = []\<rparr>,
         fs_log = [WriteFile ''/opt/i/a'' ''A'', Remove ''/opt/i/x/y/d'', Rmdir ''/opt/i/x/y'',
                   Rmdir ''/opt/i/x''],
         dl_log = []\<rparr>)"
    by (simp only: second)
  from plan wd run show ?thesis
    by (intro conjI)
qed

text \<open>
  Claim C5, as stated, fails: in this update the new file is written before the old
  file is removed.
\<close>

theorem deletes_not_first_counterexample:
  "updateInstance (ex_env ex_hash [(''https://r/srv/a'', ''A'')] []) 110 110 ex_mixed_updater
     (ex_sys ex_mixed_world)
   = (Returned True, ex_mixed_updater,
      \<lparr>world = \<lparr>sfs_files = [(''/opt/i/a'', ''A'')], sfs_dirs = [''/opt'', ''/opt/i''],
                 sfs_readonly = []\<rparr>,
       fs_log = [WriteFile ''/opt/i/a'' ''A'', Remove ''/opt/i/d''],
       dl_log = [''https://r/srv/a'']\<rparr>,
      [(''a'', \<lparr>data = ''A'', pos = 0, closed = True\<rparr>)])
   \<and> \<not> deletes_first [WriteFile ''/opt/i/a'' ''A'', Remove ''/opt/i/d'']"
  by (simp add: update_simps Let_def deletes_first_def ex_mixed_updater_def ex_mixed_world_def
        ex_simps tf_simps)

lemma apply_files_log_grows:
  "apply_files e u hs xs s = (r, s') \<Longrightarrow> \<exists>ops. fs_log s' = fs_log s @ ops"
proof (induction xs arbitrary: s)
  case Nil
  then show ?case by simp
next
  case (Cons x xs)
  obtain k a where x: "x = (k, a)" by (cases x)
  show ?case
  proof (cases "a = DELETE")
    case True
    with Cons.prems x have "list_all (\<lambda>(k, a). a = DELETE) [x]" by simp
    obtain r1 s1 where one: "apply_files e u hs [x] s = (r1, s1)"
      by (cases "apply_files e u hs [x] s")
    from apply_deletes_log [OF \<open>list_all (\<lambda>(k, a). a = DELETE) [x]\<close> one]
    obtain ops1 where l1: "fs_log s1 = fs_log s @ ops1" by blast
    show ?thesis
    proof (cases "r1 = Returned True")
      case True
      with Cons.prems one apply_files_append [of e u hs "[x]" xs s]
      have "apply_files e u hs xs s1 = (r, s')" by simp
      from Cons.IH [OF this] l1 show ?thesis by auto
    next
      case False
      with Cons.prems one apply_files_append [of e u hs "[x]" xs s]
      have "s' = s1" by (cases r1) (auto split: bool.splits)
      with l1 show ?thesis by simp
    qed
  next
    case False
    with x have nd: "list_all (\<lambda>(k, a). a \<noteq> DELETE) [x]" by simp
    obtain r1 s1 where one: "apply_files e u hs [x] s = (r1, s1)"
      by (cases "apply_files e u hs [x] s")
    from apply_writes_log [OF nd one]
    obtain ops1 where l1: "fs_log s1 = fs_log s @ ops1" by blast
    show ?thesis
    proof (cases "r1 = Returned True")
      case True
      with Cons.prems one apply_files_append [of e u hs "[x]" xs s]
      have "apply_files e u hs xs s1 = (r, s')" by simp
      from Cons.IH [OF this] l1 show ?thesis by auto
    next
      case False
      with Cons.prems one apply_files_append [of e u hs "[x]" xs s]
      have "s' = s1" by (cases r1) (auto split: bool.splits)
      with l1 show ?thesis by simp
    qed
  qed
qed

text \<open>
  Claim C6. The entries \<open>pre\<close> have been applied; the new or modified file \<open>k\<close> is
  copied to its destination and the copy succeeds; the destination is read back and
  its digest is not the expected one. Then the apply phase returns \<open>False\<close> in the
  state right after that write: the entries \<open>post\<close> are not looked at, the file
  system is the one the write has left, nothing is issued after the write, and
  everything issued before it is still in the list of changes (nothing is reverted).
\<close>

theorem post_write_mismatch_aborts:
  assumes pre: "apply_files e u hs pre s = (Returned True, s1)"
    and a: "a = NEW \<or> a = MODIFY"
    and dirs: "s1' = (if a = NEW then snd (priv_createSubDirectories e k (instanceLocation u) s1)
                      else s1)"
    and fh: "dict_get hs k = Some fh" "\<not> closed fh"
    and wr: "issue e (WriteFile (py_join (instanceLocation u) k) (drop (pos fh) (data fh))) s1'
               = (True, s2)"
    and rd: "os_read e (world s2) (py_join (instanceLocation u) k) = Some content"
    and ex: "newestFiles u = Some files" "dict_get files k = Some expected"
    and mismatch: "JStr (sha256 e content) \<noteq> expected"
  shows "apply_files e u hs (pre @ (k, a) # post) s = (Returned False, s2)
       \<and> world s2 = snd (os_mutate e (WriteFile (py_join (instanceLocation u) k)
                                          (drop (pos fh) (data fh))) (world s1'))
       \<and> (\<exists>ops. fs_log s2 = fs_log s @ ops
                   @ [WriteFile (py_join (instanceLocation u) k) (drop (pos fh) (data fh))])"
proof -
  have cv: "copy_and_verify e u hs k s1' = (Some (Returned False), s2)"
    using fh wr rd ex mismatch by (simp add: copy_and_verify_def Let_def)
  have "a \<noteq> DELETE" using a by auto
  then have "apply_files e u hs ((k, a) # post) s1 = (Returned False, s2)"
    using cv dirs by simp
  then have res: "apply_files e u hs (pre @ (k, a) # post) s = (Returned False, s2)"
    by (simp add: apply_files_append pre)
  from apply_files_log_grows [OF pre] obtain ops1 where l1: "fs_log s1 = fs_log s @ ops1"
    by blast
  have "\<exists>ops. fs_log s1' = fs_log s1 @ ops"
    using createSubDirectories_log [of e k "instanceLocation u" s1] dirs
    by (cases "priv_createSubDirectories e k (instanceLocation u) s1") auto
  then obtain ops2 where l2: "fs_log s1' = fs_log s1 @ ops2" by blast
  from issue_log [OF wr] l1 l2
  have "fs_log s2 = fs_log s @ (ops1 @ ops2)
          @ [WriteFile (py_join (instanceLocation u) k) (drop (pos fh) (data fh))]"
    by simp
  moreover have "world s2 = snd (os_mutate e (WriteFile (py_join (instanceLocation u) k)
                                          (drop (pos fh) (data fh))) (world s1'))"
    using wr by (auto simp: issue_def split: prod.splits)
  ultimately show ?thesis using res by blast
qed

theorem post_write_mismatch_aborts_witness:
  "apply_files (ex_env ex_hash [] []) ex_two_updater ex_damaged_handles
     ([] @ (''a'', NEW) # [(''b'', NEW)]) (ex_sys ex_empty_world)
   = (Returned False,
      \<lparr>world = \<lparr>sfs_files = [(''/opt/i/a'', ''A?'')], sfs_dirs = [''/opt'', ''/opt/i''],
                 sfs_readonly = []\<rparr>,
       fs_log = [WriteFile ''/opt/i/a'' ''A?''], dl_log = []\<rparr>)"
proof -
  let ?e = "ex_env ex_hash [] []"
  let ?s2 = "\<lparr>world = \<lparr>sfs_files = [(''/opt/i/a'', ''A?'')], sfs_dirs = [''/opt'', ''/opt/i''],
                 sfs_readonly = []\<rparr>,
       fs_log = [WriteFile ''/opt/i/a'' ''A?''], dl_log = []\<rparr>"
  have pre: "apply_files ?e ex_two_updater ex_damaged_handles [] (ex_sys ex_empty_world)
               = (Returned True, ex_sys ex_empty_world)"
    by simp
  have dirs: "ex_sys ex_empty_world
                = (if NEW = NEW
                   then snd (priv_createSubDirectories ?e ''a'' (instanceLocation ex_two_updater)
                               (ex_sys ex_empty_world))
                   else ex_sys ex_empty_world)"
    by (simp add: priv_createSubDirectories_def slash_def)
  have fh: "dict_get ex_damaged_handles ''a'' = Some \<lparr>data = ''A?'', pos = 0, closed = False\<rparr>"
    "\<not> closed \<lparr>data = ''A?'', pos = 0, closed = False\<rparr>"
    by (simp_all add: ex_damaged_handles_def dict_get_def)
  have wr: "issue ?e (WriteFile (py_join (instanceLocation ex_two_updater) ''a'')
                (drop (pos \<lparr>data = ''A?'', pos = 0, closed = False\<rparr>)
                      (data \<lparr>data = ''A?'', pos = 0, closed = False\<rparr>)))
              (ex_sys ex_empty_world) = (True, ?s2)"
    by (simp add: issue_def ex_two_updater_def ex_empty_world_def ex_simps)
  have rd: "os_read ?e (world ?s2) (py_join (instanceLocation ex_two_updater) ''a'') = Some ''A?''"
    by (simp add: ex_two_updater_def ex_simps)
  have ex: "newestFiles ex_two_updater
              = Some [(''a'', JStr (ex_hash ''A'')), (''b'', JStr (ex_hash ''B''))]"
    "dict_get [(''a'', JStr (ex_hash ''A'')), (''b'', JStr (ex_hash ''B''))] ''a''
       = Some (JStr (ex_hash ''A''))"
    by (simp_all add: ex_two_updater_def ex_updater_def dict_get_def)
  have mismatch: "JStr (sha256 ?e ''A?'') \<noteq> JStr (ex_hash ''A'')"
    by (simp add: ex_env_def ex_hash_def)
  show ?thesis
    using post_write_mismatch_aborts [OF pre _ dirs fh wr rd ex mismatch, of "[(''b'', NEW)]"]
    by simp
qed

end
